theory Spec2Isabelle
  imports Complex_Main
begin

section \<open>JavaScript numbers\<close>

text \<open>
  A JavaScript \<^verbatim>\<open>number\<close> as the comparisons of the source see it: not-a-number,
  the two infinities, or a finite value. A finite double is a rational, and \<^verbatim>\<open><\<close> on
  doubles is the order of these rationals, so nothing is lost for comparisons.
\<close>

datatype number = NumNaN | NumNegInf | Num rat | NumPosInf

text \<open>The relational operator \<^verbatim>\<open><\<close> on two numbers: false as soon as one side is NaN.\<close>

fun num_lt :: "number \<Rightarrow> number \<Rightarrow> bool" where
  "num_lt NumNaN _ = False"
| "num_lt _ NumNaN = False"
| "num_lt NumNegInf NumNegInf = False"
| "num_lt NumNegInf _ = True"
| "num_lt _ NumNegInf = False"
| "num_lt NumPosInf _ = False"
| "num_lt _ NumPosInf = True"
| "num_lt (Num a) (Num b) = (a < b)"

section \<open>Market maker restriction cache\<close>

text \<open>
  \<^verbatim>\<open>parseCacheRestrictionAndExpiryIfNeeded(cachedValues: Record<string, string>)\<close>.

  The record is given by its \<^verbatim>\<open>Object.entries\<close>, an association list whose keys are
  distinct. Three things of the environment are parameters:
  \<^item> \<open>toNumber\<close>, the unary \<^verbatim>\<open>+\<close> of JavaScript applied to a string;
  \<^item> \<open>now\<close>, the value of \<^verbatim>\<open>Date.now()\<close>, in milliseconds;
  \<^item> \<open>ttl_s\<close>, the constant \<^verbatim>\<open>HASHFLOW_MM_RESTRICT_TTL_S\<close> of \<^verbatim>\<open>./constants\<close>.

  The result holds the returned set and the one effect on the cache: the argument of the
  \<^verbatim>\<open>hdel\<close> call, which is made only when \<^verbatim>\<open>toDelete\<close> is not empty. The two debug
  log lines are left out.
\<close>

record restriction_state =
  restrictedMMs :: "string set"
  toDelete :: "string list"

record restriction_result =
  returned :: "string set"
  hdel :: "string list option"

definition expirationThreshold :: "int \<Rightarrow> int \<Rightarrow> number" where
  "expirationThreshold now ttl_s = Num (of_int (now - ttl_s * 1000))"

text \<open>The body of the \<^verbatim>\<open>forEach\<close> callback, for one entry \<^verbatim>\<open>[mm, createdAt]\<close>.\<close>

definition restriction_step ::
  "(string \<Rightarrow> number) \<Rightarrow> number \<Rightarrow> restriction_state \<Rightarrow> string \<times> string \<Rightarrow> restriction_state" where
  "restriction_step toNumber threshold st entry =
     (case entry of (mm, createdAt) \<Rightarrow>
        if num_lt (toNumber createdAt) threshold
        then st\<lparr>toDelete := toDelete st @ [mm]\<rparr>
        else st\<lparr>restrictedMMs := insert mm (restrictedMMs st)\<rparr>)"

definition parseCacheRestrictionAndExpiryIfNeeded ::
  "(string \<Rightarrow> number) \<Rightarrow> int \<Rightarrow> int \<Rightarrow> (string \<times> string) list \<Rightarrow> restriction_result" where
  "parseCacheRestrictionAndExpiryIfNeeded toNumber now ttl_s cachedValues =
     (let st = foldl (restriction_step toNumber (expirationThreshold now ttl_s))
                 \<lparr>restrictedMMs = {}, toDelete = []\<rparr> cachedValues
      in \<lparr>returned = restrictedMMs st,
          hdel = (if toDelete st \<noteq> [] then Some (toDelete st) else None)\<rparr>)"

text \<open>An entry is scheduled for deletion when its key is among the fields of the \<^verbatim>\<open>hdel\<close> call.\<close>

definition scheduledForDeletion :: "restriction_result \<Rightarrow> string \<Rightarrow> bool" where
  "scheduledForDeletion r mm = (case hdel r of None \<Rightarrow> False | Some ks \<Rightarrow> mm \<in> set ks)"

text \<open>
  A coercion for the examples: a string of decimal digits is the number it writes, and
  anything else is NaN here.
\<close>

definition digit_of :: "char \<Rightarrow> nat option" where
  "digit_of c = (let n = (of_char c :: nat) in if 48 \<le> n \<and> n \<le> 57 then Some (n - 48) else None)"

fun digits_value :: "nat \<Rightarrow> string \<Rightarrow> nat option" where
  "digits_value acc [] = Some acc"
| "digits_value acc (c # cs) =
     (case digit_of c of None \<Rightarrow> None | Some d \<Rightarrow> digits_value (10 * acc + d) cs)"

definition digitsToNumber :: "string \<Rightarrow> number" where
  "digitsToNumber s =
     (if s = [] then NumNaN
      else case digits_value 0 s of None \<Rightarrow> NumNaN | Some n \<Rightarrow> Num (of_nat n))"


section \<open>Arbitrary-precision decimals\<close>

text \<open>
  The values of the \<^verbatim>\<open>BigNumber\<close> class of bignumber.js, which the source uses for all
  price arithmetic: not-a-number, the two infinities, or a finite value. Finite values are
  decimal fractions; they are carried as rationals. \<^verbatim>\<open>plus\<close>, \<^verbatim>\<open>minus\<close> and
  \<^verbatim>\<open>multipliedBy\<close> are exact in the library, \<^verbatim>\<open>dividedBy\<close> rounds to
  \<^verbatim>\<open>DECIMAL_PLACES\<close> places with \<^verbatim>\<open>ROUNDING_MODE\<close>, and every comparison with NaN
  is false. The library's defaults are taken (20 places, \<^verbatim>\<open>ROUND_HALF_UP\<close>). Negative
  zero is identified with zero and the exponent range of the library is not limited.
\<close>

datatype bignumber = NaN | NegInf | Fin rat | PosInf

definition BN_0 :: bignumber where
  "BN_0 = Fin 0"

definition BN_1 :: bignumber where
  "BN_1 = Fin 1"

fun negated :: "bignumber \<Rightarrow> bignumber" where
  "negated NaN = NaN"
| "negated NegInf = PosInf"
| "negated PosInf = NegInf"
| "negated (Fin a) = Fin (- a)"

fun bn_plus :: "bignumber \<Rightarrow> bignumber \<Rightarrow> bignumber" where
  "bn_plus (Fin a) (Fin b) = Fin (a + b)"
| "bn_plus NaN _ = NaN"
| "bn_plus _ NaN = NaN"
| "bn_plus PosInf NegInf = NaN"
| "bn_plus NegInf PosInf = NaN"
| "bn_plus PosInf _ = PosInf"
| "bn_plus _ PosInf = PosInf"
| "bn_plus NegInf _ = NegInf"
| "bn_plus _ NegInf = NegInf"

definition bn_minus :: "bignumber \<Rightarrow> bignumber \<Rightarrow> bignumber" where
  "bn_minus a b = bn_plus a (negated b)"

text \<open>The sign of a value that is not NaN: \<open>-1\<close>, \<open>0\<close> or \<open>1\<close>.\<close>

fun bn_sign :: "bignumber \<Rightarrow> int" where
  "bn_sign NaN = 0"
| "bn_sign NegInf = - 1"
| "bn_sign PosInf = 1"
| "bn_sign (Fin a) = (if a < 0 then - 1 else if a = 0 then 0 else 1)"

definition signed_infinity :: "int \<Rightarrow> bignumber" where
  "signed_infinity s = (if s < 0 then NegInf else PosInf)"

fun multipliedBy :: "bignumber \<Rightarrow> bignumber \<Rightarrow> bignumber" where
  "multipliedBy (Fin a) (Fin b) = Fin (a * b)"
| "multipliedBy NaN _ = NaN"
| "multipliedBy _ NaN = NaN"
| "multipliedBy x y =
     (if bn_sign x * bn_sign y = 0 then NaN else signed_infinity (bn_sign x * bn_sign y))"

definition DECIMAL_PLACES :: nat where
  "DECIMAL_PLACES = 20"

text \<open>\<^verbatim>\<open>ROUND_HALF_UP\<close>: to the nearest integer, a tie away from zero.\<close>

definition round_half_up :: "rat \<Rightarrow> int" where
  "round_half_up x = (if 0 \<le> x then \<lfloor>x + 1 / 2\<rfloor> else - \<lfloor>- x + 1 / 2\<rfloor>)"

definition round_places :: "nat \<Rightarrow> rat \<Rightarrow> rat" where
  "round_places dp x = of_int (round_half_up (x * 10 ^ dp)) / 10 ^ dp"

fun dividedBy :: "bignumber \<Rightarrow> bignumber \<Rightarrow> bignumber" where
  "dividedBy NaN _ = NaN"
| "dividedBy _ NaN = NaN"
| "dividedBy (Fin a) (Fin b) =
     (if b = 0 then (if a = 0 then NaN else signed_infinity (bn_sign (Fin a)))
      else Fin (round_places DECIMAL_PLACES (a / b)))"
| "dividedBy (Fin a) _ = Fin 0"
| "dividedBy x (Fin b) = signed_infinity (bn_sign x * (if b < 0 then - 1 else 1))"
| "dividedBy _ _ = NaN"

text \<open>\<^verbatim>\<open>comparedTo\<close>: \<open>-1\<close>, \<open>0\<close> or \<open>1\<close>, and \<^verbatim>\<open>null\<close> when a side is NaN.\<close>

fun comparedTo :: "bignumber \<Rightarrow> bignumber \<Rightarrow> int option" where
  "comparedTo NaN _ = None"
| "comparedTo _ NaN = None"
| "comparedTo (Fin a) (Fin b) = Some (if a < b then - 1 else if a = b then 0 else 1)"
| "comparedTo NegInf NegInf = Some 0"
| "comparedTo PosInf PosInf = Some 0"
| "comparedTo NegInf _ = Some (- 1)"
| "comparedTo _ PosInf = Some (- 1)"
| "comparedTo _ _ = Some 1"

definition bn_lt :: "bignumber \<Rightarrow> bignumber \<Rightarrow> bool" where
  "bn_lt a b = (comparedTo a b = Some (- 1))"

definition bn_lte :: "bignumber \<Rightarrow> bignumber \<Rightarrow> bool" where
  "bn_lte a b = (comparedTo a b = Some (- 1) \<or> comparedTo a b = Some 0)"

definition bn_gt :: "bignumber \<Rightarrow> bignumber \<Rightarrow> bool" where
  "bn_gt a b = (comparedTo a b = Some 1)"

definition bn_gte :: "bignumber \<Rightarrow> bignumber \<Rightarrow> bool" where
  "bn_gte a b = (comparedTo a b = Some 1 \<or> comparedTo a b = Some 0)"

definition isZero :: "bignumber \<Rightarrow> bool" where
  "isZero a = (a = Fin 0)"

text \<open>
  Errors of the program and of the JavaScript runtime, each with its message where the
  source builds one. \<open>Thrown\<close> is a thrown value that is not an \<^verbatim>\<open>Error\<close> object.
\<close>

datatype error =
    Error string
  | RfqError string
  | SlippageCheckError string
  | SyntaxError string
  | Thrown string

text \<open>
  \<^verbatim>\<open>BigInt(x.toFixed(0))\<close>: \<^verbatim>\<open>toFixed(0)\<close> rounds a finite value to an integer with
  \<^verbatim>\<open>ROUNDING_MODE\<close> and writes it in plain notation, which \<^verbatim>\<open>BigInt\<close> reads back;
  for NaN and the infinities it writes \<^verbatim>\<open>NaN\<close>, \<^verbatim>\<open>Infinity\<close> or \<^verbatim>\<open>-Infinity\<close>, on
  which \<^verbatim>\<open>BigInt\<close> throws a \<^verbatim>\<open>SyntaxError\<close>.
\<close>

definition toFixed0_BigInt :: "bignumber \<Rightarrow> error + int" where
  "toFixed0_BigInt x =
     (case x of
        Fin a \<Rightarrow> Inr (round_half_up a)
      | NaN \<Rightarrow> Inl (SyntaxError ''Cannot convert NaN to a BigInt'')
      | PosInf \<Rightarrow> Inl (SyntaxError ''Cannot convert Infinity to a BigInt'')
      | NegInf \<Rightarrow> Inl (SyntaxError ''Cannot convert -Infinity to a BigInt''))"

text \<open>
  Modelled from the spec: \<^verbatim>\<open>getBigNumberPow\<close> of \<^verbatim>\<open>bignumber-constants\<close> is not among
  the sources; the spec calls it the token's decimal power, ten to the number of decimals.
\<close>

definition getBigNumberPow :: "nat \<Rightarrow> bignumber" where
  "getBigNumberPow decimals = Fin (10 ^ decimals)"

text \<open>
  The constructor \<^verbatim>\<open>new BigNumber(string)\<close> is a parameter \<open>bn\<close> of every function that
  reads a decimal string. For the examples, \<open>decimalBN\<close> reads an optional minus sign,
  digits, and an optional fraction part; anything else is NaN there.
\<close>

definition split_at_dot :: "string \<Rightarrow> string \<times> string option" where
  "split_at_dot s =
     (if CHR ''.'' \<in> set s
      then (takeWhile (\<lambda>c. c \<noteq> CHR ''.'') s, Some (tl (dropWhile (\<lambda>c. c \<noteq> CHR ''.'') s)))
      else (s, None))"

definition unsignedDecimal :: "string \<Rightarrow> rat option" where
  "unsignedDecimal s =
     (case split_at_dot s of
        (ip, None) \<Rightarrow>
          (if ip = [] then None else map_option of_nat (digits_value 0 ip))
      | (ip, Some fp) \<Rightarrow>
          (if ip = [] \<and> fp = [] then None
           else case (digits_value 0 ip, digits_value 0 fp) of
                  (Some i, Some f) \<Rightarrow> Some (of_nat i + of_nat f / 10 ^ length fp)
                | _ \<Rightarrow> None))"

definition decimalBN :: "string \<Rightarrow> bignumber" where
  "decimalBN s =
     (case s of
        [] \<Rightarrow> NaN
      | c # cs \<Rightarrow>
          if c = CHR ''-''
          then (case unsignedDecimal cs of None \<Rightarrow> NaN | Some r \<Rightarrow> Fin (- r))
          else (case unsignedDecimal s of None \<Rightarrow> NaN | Some r \<Rightarrow> Fin r))"

section \<open>Price-level curve\<close>

record PriceLevel =
  level :: string
  price :: string

text \<open>An element of the result of \<^verbatim>\<open>toPriceLevelsBN\<close>: \<^verbatim>\<open>{ level: BigNumber; price: BigNumber }\<close>.\<close>

record PriceLevelBN =
  levelBN :: bignumber
  priceBN :: bignumber

record quote =
  baseAmount :: bignumber
  quoteAmount :: bignumber

definition toPriceLevelsBN :: "(string \<Rightarrow> bignumber) \<Rightarrow> PriceLevel list \<Rightarrow> PriceLevelBN list" where
  "toPriceLevelsBN bn priceLevels =
     map (\<lambda>l. \<lparr>levelBN = bn (level l), priceBN = bn (price l)\<rparr>) priceLevels"

text \<open>
  The \<^verbatim>\<open>for (let i = 1; i < levels.length; i++)\<close> loop of \<^verbatim>\<open>computeLevelsQuote\<close>, from
  index \<open>i\<close> with the running \<open>quote\<close>. A request parameter that is \<^verbatim>\<open>undefined\<close> is
  \<open>None\<close>; a \<^verbatim>\<open>BigNumber\<close> object is always truthy, zero included. The result is
  \<open>None\<close> where the source returns \<^verbatim>\<open>undefined\<close>.
\<close>

function levelsLoop ::
  "PriceLevelBN list \<Rightarrow> bignumber option \<Rightarrow> bignumber option \<Rightarrow> nat \<Rightarrow> quote \<Rightarrow> bignumber option" where
  "levelsLoop levels reqBaseAmount reqQuoteAmount i q =
     (if i < length levels then
        (let nextLevel = levels ! i;
             nextLevelDepth = bn_minus (levelBN nextLevel) (levelBN (levels ! (i - 1)));
             nextLevelQuote = bn_plus (quoteAmount q) (multipliedBy nextLevelDepth (priceBN nextLevel))
         in if (case reqBaseAmount of None \<Rightarrow> False | Some b \<Rightarrow> bn_lte b (levelBN nextLevel))
            then (case reqBaseAmount of
                    None \<Rightarrow> None
                  | Some b \<Rightarrow>
                      (let baseDifference = bn_minus b (baseAmount q)
                       in Some (bn_plus (quoteAmount q) (multipliedBy baseDifference (priceBN nextLevel)))))
            else if (case reqQuoteAmount of None \<Rightarrow> False | Some r \<Rightarrow> bn_lte r nextLevelQuote)
            then (case reqQuoteAmount of
                    None \<Rightarrow> None
                  | Some r \<Rightarrow>
                      (let quoteDifference = bn_minus r (quoteAmount q)
                       in Some (bn_plus (baseAmount q) (dividedBy quoteDifference (priceBN nextLevel)))))
            else levelsLoop levels reqBaseAmount reqQuoteAmount (i + 1)
                   \<lparr>baseAmount = levelBN nextLevel, quoteAmount = nextLevelQuote\<rparr>)
      else None)"
  by pat_completeness auto
termination
  by (relation "measure (\<lambda>(levels, rb, rq, i, q). length levels - i)") auto

definition computeLevelsQuote ::
  "(string \<Rightarrow> bignumber) \<Rightarrow> PriceLevel list \<Rightarrow> bignumber option \<Rightarrow> bignumber option
     \<Rightarrow> bignumber option" where
  "computeLevelsQuote bn priceLevels reqBaseAmount reqQuoteAmount =
     (if reqBaseAmount \<noteq> None \<and> reqQuoteAmount \<noteq> None then None
      else
        (let levels = toPriceLevelsBN bn priceLevels
         in if levels = [] then None
            else
              (let q = \<lparr>baseAmount = levelBN (levels ! 0),
                        quoteAmount = multipliedBy (levelBN (levels ! 0)) (priceBN (levels ! 0))\<rparr>
               in if (case reqBaseAmount of None \<Rightarrow> False | Some b \<Rightarrow> bn_lt b (baseAmount q))
                     \<or> (case reqQuoteAmount of None \<Rightarrow> False | Some r \<Rightarrow> bn_lt r (quoteAmount q))
                  then None
                  else levelsLoop levels reqBaseAmount reqQuoteAmount 1 q)))"

subsection \<open>The curve in the words of the specification\<close>

text \<open>
  The cumulative quote amount reached at level \<open>k\<close>: the first level at its own price,
  and each further tier at its marginal price.
\<close>

fun cumulativeQuote :: "PriceLevelBN list \<Rightarrow> nat \<Rightarrow> bignumber" where
  "cumulativeQuote ls 0 = multipliedBy (levelBN (ls ! 0)) (priceBN (ls ! 0))"
| "cumulativeQuote ls (Suc k) =
     bn_plus (cumulativeQuote ls k)
       (multipliedBy (bn_minus (levelBN (ls ! Suc k)) (levelBN (ls ! k))) (priceBN (ls ! Suc k)))"

text \<open>
  The first tier, from index \<open>from\<close> on, whose cumulative size is at least the request.
  A tier lies between a level and the one before it, so the search starts at index 1.
\<close>

definition firstLevelAtLeast :: "PriceLevelBN list \<Rightarrow> bignumber \<Rightarrow> nat \<Rightarrow> nat option" where
  "firstLevelAtLeast ls req from = find (\<lambda>i. bn_lte req (levelBN (ls ! i))) [from..<length ls]"

text \<open>
  \<open>quote = cumulativeQuoteAtPriorLevel + (requestedBase - cumulativeBaseAtPriorLevel) * tierPrice\<close>
  in the tier that ends at level \<open>i\<close>.
\<close>

definition interpolateInTier :: "PriceLevelBN list \<Rightarrow> bignumber \<Rightarrow> nat \<Rightarrow> bignumber" where
  "interpolateInTier ls req i =
     bn_plus (cumulativeQuote ls (i - 1))
       (multipliedBy (bn_minus req (levelBN (ls ! (i - 1)))) (priceBN (ls ! i)))"

definition specQuoteForBase :: "PriceLevelBN list \<Rightarrow> bignumber \<Rightarrow> bignumber option" where
  "specQuoteForBase ls req = map_option (interpolateInTier ls req) (firstLevelAtLeast ls req 1)"

text \<open>
  The request by quote amount, symmetric: the first tier whose cumulative quote amount is
  at least the request, and the base amount implied there, dividing by the tier price.
\<close>

definition firstQuoteAtLeast :: "PriceLevelBN list \<Rightarrow> bignumber \<Rightarrow> nat \<Rightarrow> nat option" where
  "firstQuoteAtLeast ls req from = find (\<lambda>i. bn_lte req (cumulativeQuote ls i)) [from..<length ls]"

definition impliedBaseInTier :: "PriceLevelBN list \<Rightarrow> bignumber \<Rightarrow> nat \<Rightarrow> bignumber" where
  "impliedBaseInTier ls req i =
     bn_plus (levelBN (ls ! (i - 1)))
       (dividedBy (bn_minus req (cumulativeQuote ls (i - 1))) (priceBN (ls ! i)))"

definition specBaseForQuote :: "PriceLevelBN list \<Rightarrow> bignumber \<Rightarrow> bignumber option" where
  "specBaseForQuote ls req = map_option (impliedBaseInTier ls req) (firstQuoteAtLeast ls req 1)"

text \<open>The levels of the specification's example, a three-tier curve.\<close>

definition exampleLevels :: "PriceLevel list" where
  "exampleLevels =
     [\<lparr>level = ''0'', price = ''2''\<rparr>, \<lparr>level = ''10'', price = ''2''\<rparr>, \<lparr>level = ''20'', price = ''3''\<rparr>]"

section \<open>Prices for a sequence of amounts\<close>

datatype SwapSide = SELL | BUY

record Token =
  address :: string
  decimals :: nat

text \<open>
  The first statement of \<^verbatim>\<open>computePricesFromLevels\<close>: when the list is not empty and the
  size of its first level is greater than zero, \<^verbatim>\<open>levels.unshift\<close> puts a level of size
  \<^verbatim>\<open>'0'\<close> with the first level's price in front. \<^verbatim>\<open>unshift\<close> changes the caller's
  array, so the list after this statement is part of what the function returns.
\<close>

definition addZeroLevel :: "(string \<Rightarrow> bignumber) \<Rightarrow> PriceLevel list \<Rightarrow> PriceLevel list" where
  "addZeroLevel bn levels =
     (case levels of
        [] \<Rightarrow> levels
      | firstLevel # _ \<Rightarrow>
          if bn_gt (bn (level firstLevel)) (Fin 0)
          then \<lparr>level = ''0'', price = price firstLevel\<rparr> # levels
          else levels)"

text \<open>
  The loop over \<^verbatim>\<open>amounts.entries()\<close>. \<^verbatim>\<open>outputs\<close> starts filled with \<^verbatim>\<open>BN_0\<close>; a
  zero amount leaves \<^verbatim>\<open>BN_0\<close>, a fillable amount stores its output, and the first
  unfillable amount leaves the loop by \<^verbatim>\<open>break\<close>, so that its entry and all later ones
  keep \<^verbatim>\<open>BN_0\<close>.
\<close>

definition levelsQuoteFor ::
  "(string \<Rightarrow> bignumber) \<Rightarrow> PriceLevel list \<Rightarrow> SwapSide \<Rightarrow> bignumber \<Rightarrow> bignumber option" where
  "levelsQuoteFor bn levels side amount =
     (if side = SELL then computeLevelsQuote bn levels (Some amount) None
      else computeLevelsQuote bn levels None (Some amount))"

fun computeOutputs ::
  "(string \<Rightarrow> bignumber) \<Rightarrow> PriceLevel list \<Rightarrow> SwapSide \<Rightarrow> bignumber list \<Rightarrow> bignumber list" where
  "computeOutputs bn levels side [] = []"
| "computeOutputs bn levels side (amount # rest) =
     (if isZero amount then BN_0 # computeOutputs bn levels side rest
      else case levelsQuoteFor bn levels side amount of
             None \<Rightarrow> replicate (length (amount # rest)) BN_0
           | Some output \<Rightarrow> output # computeOutputs bn levels side rest)"

text \<open>\<^verbatim>\<open>outputs.map(f)\<close> for an \<open>f\<close> that may throw: the first exception ends the map.\<close>

fun mapThrowing :: "('a \<Rightarrow> error + 'b) \<Rightarrow> 'a list \<Rightarrow> error + 'b list" where
  "mapThrowing f [] = Inr []"
| "mapThrowing f (x # xs) =
     (case f x of
        Inl e \<Rightarrow> Inl e
      | Inr y \<Rightarrow> (case mapThrowing f xs of Inl e \<Rightarrow> Inl e | Inr ys \<Rightarrow> Inr (y # ys)))"

text \<open>
  The result of \<^verbatim>\<open>computePricesFromLevels\<close> is the returned array of bigints, or the
  exception thrown by \<^verbatim>\<open>BigInt\<close>, together with the caller's \<^verbatim>\<open>levels\<close> array as the
  call leaves it.
\<close>

definition computePricesFromLevels ::
  "(string \<Rightarrow> bignumber) \<Rightarrow> bignumber list \<Rightarrow> PriceLevel list \<Rightarrow> Token \<Rightarrow> Token \<Rightarrow> SwapSide
     \<Rightarrow> (error + int list) \<times> PriceLevel list" where
  "computePricesFromLevels bn amounts levels srcToken destToken side =
     (let levels' = addZeroLevel bn levels;
          outputs = computeOutputs bn levels' side amounts;
          decimals' = (if side = SELL then decimals destToken else decimals srcToken)
      in (mapThrowing (\<lambda>o'. toFixed0_BigInt (multipliedBy o' (getBigNumberPow decimals'))) outputs,
          levels'))"

text \<open>Two levels that do not start at the origin, and tokens without decimals.\<close>

definition levelsFrom10 :: "PriceLevel list" where
  "levelsFrom10 = [\<lparr>level = ''10'', price = ''2''\<rparr>, \<lparr>level = ''20'', price = ''3''\<rparr>]"

definition plainToken :: Token where
  "plainToken = \<lparr>address = ''0xa'', decimals = 0\<rparr>"

subsection \<open>Well-formed curves and amount sequences\<close>

fun isFinite :: "bignumber \<Rightarrow> bool" where
  "isFinite (Fin _) = True"
| "isFinite _ = False"

fun finValue :: "bignumber \<Rightarrow> rat" where
  "finValue (Fin a) = a"
| "finValue _ = 0"

text \<open>Every size and every price of the curve is a finite number.\<close>

definition curveFinite :: "PriceLevelBN list \<Rightarrow> bool" where
  "curveFinite ls = list_all (\<lambda>l. isFinite (levelBN l) \<and> isFinite (priceBN l)) ls"

text \<open>The cumulative sizes do not decrease along the list.\<close>

definition sizesAscending :: "PriceLevelBN list \<Rightarrow> bool" where
  "sizesAscending ls = sorted (map (\<lambda>l. finValue (levelBN l)) ls)"

definition pricesNonNegative :: "PriceLevelBN list \<Rightarrow> bool" where
  "pricesNonNegative ls = list_all (\<lambda>l. 0 \<le> finValue (priceBN l)) ls"

definition pricesPositive :: "PriceLevelBN list \<Rightarrow> bool" where
  "pricesPositive ls = list_all (\<lambda>l. 0 < finValue (priceBN l)) ls"

text \<open>Every size is written with at most \<^verbatim>\<open>DECIMAL_PLACES\<close> decimal places.\<close>

definition sizesRounded :: "PriceLevelBN list \<Rightarrow> bool" where
  "sizesRounded ls =
     list_all (\<lambda>l. round_places DECIMAL_PLACES (finValue (levelBN l)) = finValue (levelBN l)) ls"

text \<open>A sequence of finite, positive amounts in non-decreasing order.\<close>

definition amountsPositiveAscending :: "bignumber list \<Rightarrow> bool" where
  "amountsPositiveAscending amounts =
     (list_all (\<lambda>a. isFinite a \<and> 0 < finValue a) amounts \<and> sorted (map finValue amounts))"

text \<open>The amount at index \<open>k\<close> is fillable on the curve the call walks.\<close>

definition fillable ::
  "(string \<Rightarrow> bignumber) \<Rightarrow> PriceLevel list \<Rightarrow> SwapSide \<Rightarrow> bignumber list \<Rightarrow> nat \<Rightarrow> bool" where
  "fillable bn levels side amounts k =
     (levelsQuoteFor bn (addZeroLevel bn levels) side (amounts ! k) \<noteq> None)"

text \<open>A curve with a negative price.\<close>

definition negativePriceLevels :: "PriceLevel list" where
  "negativePriceLevels = [\<lparr>level = ''0'', price = ''-1''\<rparr>, \<lparr>level = ''10'', price = ''-1''\<rparr>]"

section \<open>Strings of the JavaScript runtime\<close>

text \<open>
  Strings are lists of characters. The functions below are the runtime's on ASCII text,
  which is what addresses, identifiers and decimal numbers are made of.
\<close>

definition lowerChar :: "char \<Rightarrow> char" where
  "lowerChar c =
     (let n = (of_char c :: nat) in if 65 \<le> n \<and> n \<le> 90 then char_of (n + 32) else c)"

definition toLowerCase :: "string \<Rightarrow> string" where
  "toLowerCase s = map lowerChar s"

definition startsWith :: "string \<Rightarrow> string \<Rightarrow> bool" where
  "startsWith s p = (take (length p) s = p)"

definition endsWith :: "string \<Rightarrow> string \<Rightarrow> bool" where
  "endsWith s p = (length p \<le> length s \<and> drop (length s - length p) s = p)"

text \<open>The relational operator \<^verbatim>\<open><\<close> on two strings: lexicographic, by code unit.\<close>

fun string_lt :: "string \<Rightarrow> string \<Rightarrow> bool" where
  "string_lt _ [] = False"
| "string_lt [] (_ # _) = True"
| "string_lt (x # xs) (y # ys) =
     (if x = y then string_lt xs ys else (of_char x :: nat) < of_char y)"

definition digitChar :: "nat \<Rightarrow> char" where
  "digitChar d = char_of (48 + d)"

fun natToString :: "nat \<Rightarrow> string" where
  "natToString n = (if n < 10 then [digitChar n] else natToString (n div 10) @ [digitChar (n mod 10)])"

declare natToString.simps [simp del]

text \<open>A bigint or an integral number in a template literal.\<close>

definition intToString :: "int \<Rightarrow> string" where
  "intToString i = (if i < 0 then CHR ''-'' # natToString (nat (- i)) else natToString (nat i))"

subsection \<open>Writing a BigNumber\<close>

text \<open>
  \<^verbatim>\<open>toString()\<close> and \<^verbatim>\<open>valueOf()\<close> of bignumber.js, with the library's defaults
  \<^verbatim>\<open>EXPONENTIAL_AT = [-7, 21]\<close>: the digits of the coefficient without trailing zeros,
  in plain notation when the exponent of the leading digit is between \<open>-6\<close> and \<open>20\<close>
  and in exponential notation otherwise. The two methods differ on negative zero only.

  A finite value \<open>r\<close> is \<open>m / 10 ^ k\<close> for a least \<open>k\<close>, which is at most the
  denominator of \<open>r\<close>; \<open>decimalScale\<close> searches it.
\<close>

fun decimalScale :: "nat \<Rightarrow> nat \<Rightarrow> rat \<Rightarrow> nat" where
  "decimalScale 0 k x = k"
| "decimalScale (Suc fuel) k x =
     (if of_int \<lfloor>x\<rfloor> = x then k else decimalScale fuel (Suc k) (x * 10))"

definition stripTrailingZeros :: "string \<Rightarrow> string" where
  "stripTrailingZeros ds = rev (dropWhile (\<lambda>c. c = CHR ''0'') (rev ds))"

definition TO_EXP_NEG :: int where
  "TO_EXP_NEG = - 7"

definition TO_EXP_POS :: int where
  "TO_EXP_POS = 21"

definition toExponential :: "string \<Rightarrow> int \<Rightarrow> string" where
  "toExponential str e =
     (if length str > 1 then hd str # CHR ''.'' # tl str else str)
     @ (if e < 0 then ''e'' else ''e+'') @ intToString e"

definition toFixedPoint :: "string \<Rightarrow> int \<Rightarrow> string" where
  "toFixedPoint str e =
     (if e < 0 then ''0.'' @ replicate (nat (- e - 1)) CHR ''0'' @ str
      else if e + 1 > int (length str) then str @ replicate (nat (e + 1) - length str) CHR ''0''
      else if e + 1 < int (length str) then take (nat (e + 1)) str @ ''.'' @ drop (nat (e + 1)) str
      else str)"

definition bn_toString :: "bignumber \<Rightarrow> string" where
  "bn_toString x =
     (case x of
        NaN \<Rightarrow> ''NaN''
      | PosInf \<Rightarrow> ''Infinity''
      | NegInf \<Rightarrow> ''-Infinity''
      | Fin r \<Rightarrow>
          if r = 0 then ''0''
          else
            (let k = decimalScale (nat (snd (quotient_of r))) 0 \<bar>r\<bar>;
                 ds = natToString (nat \<lfloor>\<bar>r\<bar> * 10 ^ k\<rfloor>);
                 e = int (length ds) - 1 - int k;
                 str = stripTrailingZeros ds;
                 body = (if e \<le> TO_EXP_NEG \<or> e \<ge> TO_EXP_POS then toExponential str e
                         else toFixedPoint str e)
             in if r < 0 then CHR ''-'' # body else body))"

text \<open>\<^verbatim>\<open>toFixed()\<close> without an argument: plain notation, whatever the exponent is.\<close>

definition bn_toFixed :: "bignumber \<Rightarrow> string" where
  "bn_toFixed x =
     (case x of
        NaN \<Rightarrow> ''NaN''
      | PosInf \<Rightarrow> ''Infinity''
      | NegInf \<Rightarrow> ''-Infinity''
      | Fin r \<Rightarrow>
          if r = 0 then ''0''
          else
            (let k = decimalScale (nat (snd (quotient_of r))) 0 \<bar>r\<bar>;
                 ds = natToString (nat \<lfloor>\<bar>r\<bar> * 10 ^ k\<rfloor>);
                 e = int (length ds) - 1 - int k;
                 body = toFixedPoint (stripTrailingZeros ds) e
             in if r < 0 then CHR ''-'' # body else body))"

definition bn_valueOf :: "bignumber \<Rightarrow> string" where
  "bn_valueOf x = bn_toString x"

text \<open>
  \<^verbatim>\<open>a < b\<close> on two \<^verbatim>\<open>BigNumber\<close> objects: each operand is converted to a primitive by
  its \<^verbatim>\<open>valueOf()\<close>, which returns a string, and two strings are compared as strings.
\<close>

definition bn_object_lt :: "bignumber \<Rightarrow> bignumber \<Rightarrow> bool" where
  "bn_object_lt a b = string_lt (bn_valueOf a) (bn_valueOf b)"

section \<open>Validation of price responses\<close>

text \<open>
  The result of validating a value against a schema: the value, or the message of the
  first error. Messages of the schema library's own rules are named by the rule.
\<close>

datatype 'a validated = Valid 'a | Invalid string

text \<open>\<^verbatim>\<open>stringNumberValidator\<close>: the string must not read as NaN.\<close>

definition stringNumberValidator :: "(string \<Rightarrow> bignumber) \<Rightarrow> string \<Rightarrow> string validated" where
  "stringNumberValidator bn v =
     (if bn_toString (bn v) = ''NaN'' then Invalid (v @ '' is not a number'') else Valid v)"

text \<open>
  \<^verbatim>\<open>pricesValidator\<close>: an array whose items are arrays of exactly two non-empty strings
  that pass \<^verbatim>\<open>stringNumberValidator\<close>.
\<close>

fun firstInvalid :: "('a \<Rightarrow> 'b validated) \<Rightarrow> 'a list \<Rightarrow> string option" where
  "firstInvalid f [] = None"
| "firstInvalid f (x # xs) =
     (case f x of Invalid m \<Rightarrow> Some m | Valid _ \<Rightarrow> firstInvalid f xs)"

definition priceStringValidator :: "(string \<Rightarrow> bignumber) \<Rightarrow> string \<Rightarrow> string validated" where
  "priceStringValidator bn v =
     (if length v < 1 then Invalid ''string.empty'' else stringNumberValidator bn v)"

definition priceItemValidator :: "(string \<Rightarrow> bignumber) \<Rightarrow> string list \<Rightarrow> string list validated" where
  "priceItemValidator bn item =
     (case firstInvalid (priceStringValidator bn) item of
        Some m \<Rightarrow> Invalid m
      | None \<Rightarrow> if length item \<noteq> 2 then Invalid ''array.length'' else Valid item)"

definition pricesValidator ::
  "(string \<Rightarrow> bignumber) \<Rightarrow> string list list \<Rightarrow> string list list validated" where
  "pricesValidator bn items =
     (case firstInvalid (priceItemValidator bn) items of
        Some m \<Rightarrow> Invalid m
      | None \<Rightarrow> Valid items)"

text \<open>The value of a pair: \<^verbatim>\<open>{ bids, asks }\<close>, both keys optional.\<close>

record pairPrices =
  bids :: "string list list option"
  asks :: "string list list option"

text \<open>
  The rule \<^verbatim>\<open>bidsLowerThanAsks\<close>. \<^verbatim>\<open>maxBid\<close> and \<^verbatim>\<open>minAsk\<close> are reduced with
  \<^verbatim>\<open>gte\<close> and \<^verbatim>\<open>lte\<close> from the seeds \<open>0\<close> and \<open>123456789012345678901234567890\<close>; the
  final test is the JavaScript operator \<^verbatim>\<open><\<close> on the two \<^verbatim>\<open>BigNumber\<close> objects.
\<close>

text \<open>\<^verbatim>\<open>new BigNumber(numbers[0])\<close>; of an empty array it is \<^verbatim>\<open>new BigNumber(undefined)\<close>, NaN.\<close>

definition firstNumber :: "(string \<Rightarrow> bignumber) \<Rightarrow> string list \<Rightarrow> bignumber" where
  "firstNumber bn numbers = (case numbers of [] \<Rightarrow> NaN | x # _ \<Rightarrow> bn x)"

definition maxBid :: "(string \<Rightarrow> bignumber) \<Rightarrow> string list list \<Rightarrow> bignumber" where
  "maxBid bn bs =
     foldl (\<lambda>previousValue currentValue.
              if bn_gte currentValue previousValue then currentValue else previousValue)
       (Fin 0) (map (firstNumber bn) bs)"

definition minAsk :: "(string \<Rightarrow> bignumber) \<Rightarrow> string list list \<Rightarrow> bignumber" where
  "minAsk bn as =
     foldl (\<lambda>previousValue currentValue.
              if bn_lte currentValue previousValue then currentValue else previousValue)
       (Fin 123456789012345678901234567890) (map (firstNumber bn) as)"

definition bidsLowerThanAsks :: "(string \<Rightarrow> bignumber) \<Rightarrow> pairPrices \<Rightarrow> pairPrices validated" where
  "bidsLowerThanAsks bn values =
     (case (bids values, asks values) of
        (Some bs, Some as) \<Rightarrow>
          if bs = [] \<or> as = [] then Valid values
          else if bn_object_lt (maxBid bn bs) (minAsk bn as) then Valid values
          else Invalid ''the maximum bid is higher than minimum ask''
      | _ \<Rightarrow> Valid values)"

text \<open>
  \<^verbatim>\<open>priceValidator.validatedPrices().bidsLowerThanAsks()\<close>: the base object schema
  first, then the rule.
\<close>

definition validatedPrices :: "(string \<Rightarrow> bignumber) \<Rightarrow> pairPrices \<Rightarrow> pairPrices validated" where
  "validatedPrices bn values =
     (case (case bids values of None \<Rightarrow> Valid [] | Some bs \<Rightarrow> pricesValidator bn bs) of
        Invalid m \<Rightarrow> Invalid m
      | Valid _ \<Rightarrow>
          (case (case asks values of None \<Rightarrow> Valid [] | Some as \<Rightarrow> pricesValidator bn as) of
             Invalid m \<Rightarrow> Invalid m
           | Valid _ \<Rightarrow> bidsLowerThanAsks bn values))"

text \<open>
  \<^verbatim>\<open>pricesResponse\<close>: an object whose optional key \<^verbatim>\<open>prices\<close> maps pair names of at
  least one character to validated prices. The object is given by its entries.
\<close>

record pricesResponseValue =
  prices :: "(string \<times> pairPrices) list option"

definition pairEntryValidator ::
  "(string \<Rightarrow> bignumber) \<Rightarrow> string \<times> pairPrices \<Rightarrow> pairPrices validated" where
  "pairEntryValidator bn entry =
     (case entry of (pair, values) \<Rightarrow>
        if length pair < 1 then Invalid ''object.unknown'' else validatedPrices bn values)"

definition pricesResponse ::
  "(string \<Rightarrow> bignumber) \<Rightarrow> pricesResponseValue \<Rightarrow> pricesResponseValue validated" where
  "pricesResponse bn response =
     (case prices response of
        None \<Rightarrow> Valid response
      | Some entries \<Rightarrow>
          (case firstInvalid (pairEntryValidator bn) entries of
             Some m \<Rightarrow> Invalid m
           | None \<Rightarrow> Valid response))"

text \<open>The price responses of the specification's examples, and a book that is not crossed.\<close>

definition bookOf :: "string \<Rightarrow> string \<Rightarrow> pricesResponseValue" where
  "bookOf bid ask =
     \<lparr>prices = Some [(''ETH/USDC'', \<lparr>bids = Some [[bid, ''1'']], asks = Some [[ask, ''1'']]\<rparr>)]\<rparr>"

section \<open>Pool identifiers\<close>

text \<open>
  Modelled from the spec: the constants \<^verbatim>\<open>ETHER_ADDRESS\<close> of \<^verbatim>\<open>../../constants\<close> and
  \<^verbatim>\<open>ZERO_ADDRESS\<close> of the Hashflow SDK are not among the sources; the spec calls them the
  network's native-asset sentinel and the canonical zero address.
\<close>

definition ETHER_ADDRESS :: string where
  "ETHER_ADDRESS = ''0xeeeeeeeeeeeeeeeeeeeeeeeeeeeeeeeeeeeeeeee''"

definition ZERO_ADDRESS :: string where
  "ZERO_ADDRESS = ''0x0000000000000000000000000000000000000000''"

definition normalizeToken :: "Token \<Rightarrow> Token" where
  "normalizeToken token =
     \<lparr>address = (if toLowerCase (address token) = ETHER_ADDRESS then ZERO_ADDRESS
                  else toLowerCase (address token)),
      decimals = decimals token\<rparr>"

definition getPairName :: "string \<Rightarrow> string \<Rightarrow> string" where
  "getPairName srcAddress destAddress = toLowerCase (srcAddress @ ''_'' @ destAddress)"

definition getIdentifierPrefix :: "string \<Rightarrow> string \<Rightarrow> string \<Rightarrow> string" where
  "getIdentifierPrefix dexKey srcAddress destAddress =
     toLowerCase (dexKey @ ''_'' @ getPairName srcAddress destAddress)"

definition getPoolIdentifier :: "string \<Rightarrow> string \<Rightarrow> string \<Rightarrow> string \<Rightarrow> string" where
  "getPoolIdentifier dexKey srcAddress destAddress mm =
     toLowerCase (getIdentifierPrefix dexKey srcAddress destAddress @ ''_'' @ mm)"

text \<open>
  The cached quote set, \<^verbatim>\<open>PriceLevelsResponse['levels']\<close>: an object from maker ids to
  lists of entries \<^verbatim>\<open>{ pair, levels }\<close>, given by its entries in the order of
  \<^verbatim>\<open>Object.keys\<close>. Of a pair only the two token addresses are read here.
\<close>

record pairInfo =
  baseToken :: string
  quoteToken :: string

record levelsEntry =
  entryPair :: pairInfo
  entryLevels :: "PriceLevel list"

type_synonym levelsMap = "(string \<times> levelsEntry list) list"

text \<open>
  \<^verbatim>\<open>getPoolIdentifiers\<close>, given the result of \<^verbatim>\<open>getLevelsWithCache()\<close>. The arguments
  \<^verbatim>\<open>side\<close> and \<^verbatim>\<open>blockNumber\<close> are not read.
\<close>

definition getPoolIdentifiers :: "string \<Rightarrow> levelsMap \<Rightarrow> Token \<Rightarrow> Token \<Rightarrow> string list" where
  "getPoolIdentifiers dexKey levelsOfMakers srcToken destToken =
     (let normalizedSrcToken = normalizeToken srcToken;
          normalizedDestToken = normalizeToken destToken
      in if address normalizedSrcToken = address normalizedDestToken then []
         else
           map (\<lambda>m. getPoolIdentifier dexKey (address normalizedSrcToken)
                       (address normalizedDestToken) m)
             (filter
                (\<lambda>m. let pairs = (case map_of levelsOfMakers m of
                                      None \<Rightarrow> []
                                    | Some es \<Rightarrow> map entryPair es)
                      in list_ex (\<lambda>p. address normalizedSrcToken = toLowerCase (baseToken p)
                                       \<and> address normalizedDestToken = toLowerCase (quoteToken p))
                           pairs)
                (map fst levelsOfMakers)))"

text \<open>
  \<^verbatim>\<open>String.prototype.split\<close> with a separator string: the pieces between the
  occurrences of the separator, found from left to right. With the empty separator the
  string is cut into its characters.
\<close>

function splitFrom :: "string \<Rightarrow> string \<Rightarrow> string \<Rightarrow> string list" where
  "splitFrom sep piece s =
     (if s = [] then [rev piece]
      else if sep \<noteq> [] \<and> startsWith s sep then rev piece # splitFrom sep [] (drop (length sep) s)
      else splitFrom sep (hd s # piece) (tl s))"
  by pat_completeness auto
termination
  by (relation "measure (\<lambda>(sep, piece, s). length s)") auto

declare splitFrom.simps [simp del]

definition split :: "string \<Rightarrow> string \<Rightarrow> string list" where
  "split s sep = (if sep = [] then map (\<lambda>c. [c]) s else splitFrom sep [] s)"

text \<open>\<^verbatim>\<open>Array.prototype.pop\<close> as an expression: the last element, \<^verbatim>\<open>undefined\<close> on an empty array.\<close>

definition pop :: "'a list \<Rightarrow> 'a option" where
  "pop xs = (if xs = [] then None else Some (last xs))"

text \<open>
  The maker selection of \<^verbatim>\<open>getPricesVolume\<close>: the maker ids read back from the pool
  identifiers, and the makers of the quote set that are kept (the others are deleted from
  \<^verbatim>\<open>levelsMap\<close>).
\<close>

definition marketMakersToUse :: "string \<Rightarrow> Token \<Rightarrow> Token \<Rightarrow> string list \<Rightarrow> string option list" where
  "marketMakersToUse dexKey srcToken destToken pools =
     (let normalizedSrcToken = normalizeToken srcToken;
          normalizedDestToken = normalizeToken destToken;
          prefix = getIdentifierPrefix dexKey (address normalizedSrcToken)
                     (address normalizedDestToken)
      in map (\<lambda>p. pop (split p (prefix @ ''_''))) pools)"

definition keptMakers ::
  "string \<Rightarrow> levelsMap \<Rightarrow> Token \<Rightarrow> Token \<Rightarrow> string list option \<Rightarrow> string list" where
  "keptMakers dexKey levelsOfMakers srcToken destToken limitPools =
     (let pools = (case limitPools of
                     Some ps \<Rightarrow> ps
                   | None \<Rightarrow> getPoolIdentifiers dexKey levelsOfMakers srcToken destToken);
          use = marketMakersToUse dexKey srcToken destToken pools
      in filter (\<lambda>mmKey. Some mmKey \<in> set use) (map fst levelsOfMakers))"

text \<open>A quote set with one maker whose id has capital letters, and the two tokens of its pair.\<close>

definition upperMakerLevels :: levelsMap where
  "upperMakerLevels =
     [(''MM1'', [\<lparr>entryPair = \<lparr>baseToken = ''0xa'', quoteToken = ''0xb''\<rparr>, entryLevels = exampleLevels\<rparr>])]"

definition tokenA :: Token where
  "tokenA = \<lparr>address = ''0xa'', decimals = 18\<rparr>"

definition tokenB :: Token where
  "tokenB = \<lparr>address = ''0xb'', decimals = 6\<rparr>"

section \<open>Transaction preprocessing\<close>

text \<open>
  The instance of the exchange: its key, the network id as a template literal prints it,
  and the constant \<^verbatim>\<open>HASHFLOW_BLACKLIST_TTL_S\<close> of \<^verbatim>\<open>./constants\<close>.
\<close>

record Hashflow =
  dexKey :: string
  network :: string
  blacklistTtl :: int

text \<open>
  The shared cache, as far as this exchange and network use it: the keys written with
  \<^verbatim>\<open>setex\<close> (value and time to live), and the fields of the hash
  \<^verbatim>\<open>runtimeMMsRestrictHashMapKey\<close>. The calls on the cache are taken to succeed.
\<close>

record cache =
  entries :: "(string \<times> string \<times> int) list"
  restricted :: "(string \<times> string) list"

fun alistSet :: "'k \<Rightarrow> 'v \<Rightarrow> ('k \<times> 'v) list \<Rightarrow> ('k \<times> 'v) list" where
  "alistSet k v [] = [(k, v)]"
| "alistSet k v (p # ps) = (if fst p = k then (k, v) # ps else p # alistSet k v ps)"

definition alistDelete :: "'k \<Rightarrow> ('k \<times> 'v) list \<Rightarrow> ('k \<times> 'v) list" where
  "alistDelete k ps = filter (\<lambda>p. fst p \<noteq> k) ps"

definition getBlackListKey :: "string \<Rightarrow> string" where
  "getBlackListKey addr = toLowerCase (''blacklist_'' @ addr)"

definition isBlacklisted :: "cache \<Rightarrow> string \<Rightarrow> bool" where
  "isBlacklisted c txOrigin' =
     (map_option fst (map_of (entries c) (getBlackListKey txOrigin')) = Some ''blacklisted'')"

definition setBlacklist :: "Hashflow \<Rightarrow> string \<Rightarrow> cache \<Rightarrow> cache" where
  "setBlacklist h txOrigin' c =
     c\<lparr>entries := alistSet (getBlackListKey txOrigin') (''blacklisted'', blacklistTtl h) (entries c)\<rparr>"

text \<open>
  \<^verbatim>\<open>restrictMM\<close>: the maker's field is set to \<^verbatim>\<open>Date.now().toString()\<close>, and the cached
  levels are deleted (a call that is not awaited, whose failure is only logged).
\<close>

definition restrictMM :: "string \<Rightarrow> int \<Rightarrow> cache \<Rightarrow> cache" where
  "restrictMM maker now c =
     c\<lparr>restricted := alistSet maker (intToString now) (restricted c),
       entries := alistDelete ''levels'' (entries c)\<rparr>"

text \<open>
  Modelled from the spec: the enum \<^verbatim>\<open>RFQType\<close> and the classes \<^verbatim>\<open>RfqError\<close> and
  \<^verbatim>\<open>SlippageCheckError\<close> of \<^verbatim>\<open>./types\<close> are not among the sources; the spec names the
  taker firm-quote type as the expected one and lists both errors in its taxonomy. They
  are taken to be subclasses of \<^verbatim>\<open>Error\<close>.
\<close>

datatype RFQType = RFQT | RFQM

record QuoteData =
  rfqType :: RFQType
  rfqBaseToken :: string
  rfqQuoteToken :: string
  baseTokenAmount :: string
  quoteTokenAmount :: string
  quoteExpiry :: int

record RfqResponse =
  status :: string
  quoteData :: "QuoteData option"
  signature :: "string option"
  gasEstimate :: "int option"

record HashflowData =
  dataMM :: string
  dataQuoteData :: "QuoteData option"
  dataSignature :: "string option"
  dataGasEstimate :: "int option"

record OptimalSwapExchange =
  srcAmount :: string
  destAmount :: string
  data :: "HashflowData option"

record PreprocessTransactionOptions =
  txOrigin :: string
  slippageFactor :: bignumber

record ExchangeTxInfo =
  deadline :: int

text \<open>
  What the runtime provides: \<^verbatim>\<open>BigInt(string)\<close>, which is \<open>None\<close> where it throws a
  \<^verbatim>\<open>SyntaxError\<close>, and \<^verbatim>\<open>JSON.stringify\<close> of a response.
\<close>

record runtime =
  BigInt :: "string \<Rightarrow> int option"
  stringify :: "RfqResponse \<Rightarrow> string"

text \<open>
  The outcome of \<^verbatim>\<open>Utils.timeoutPromise(this.api.requestQuote(...), ...)\<close>: the promise
  rejects (a failure of the call, or the timeout) or resolves with a response.
\<close>

datatype quoteOutcome = Rejects error | Resolves RfqResponse

fun isErrorObject :: "error \<Rightarrow> bool" where
  "isErrorObject (Thrown _) = False"
| "isErrorObject _ = True"

fun message :: "error \<Rightarrow> string" where
  "message (Error m) = m"
| "message (RfqError m) = m"
| "message (SlippageCheckError m) = m"
| "message (SyntaxError m) = m"
| "message (Thrown m) = m"

definition sideName :: "SwapSide \<Rightarrow> string" where
  "sideName side = (case side of SELL \<Rightarrow> ''SELL'' | BUY \<Rightarrow> ''BUY'')"

definition BI_MAX_UINT256 :: int where
  "BI_MAX_UINT256 = 2 ^ 256 - 1"

definition failedToFetch :: "Hashflow \<Rightarrow> Token \<Rightarrow> Token \<Rightarrow> string" where
  "failedToFetch h normalizedSrcToken normalizedDestToken =
     dexKey h @ ''-'' @ network h @ '': Failed to fetch RFQ for ''
     @ getPairName (address normalizedSrcToken) (address normalizedDestToken)"

text \<open>
  The checks on the response, lines 507 to 561: the chain of \<^verbatim>\<open>if\<close>s that throw
  \<^verbatim>\<open>RfqError\<close>, then the two assertions (\<^verbatim>\<open>assert\<close> of ts-essentials throws an
  \<^verbatim>\<open>Error\<close> whose message starts with \<^verbatim>\<open>Assertion Error: \<close>). An empty signature
  and a gas estimate of zero are falsy.
\<close>

definition checkResponse ::
  "Hashflow \<Rightarrow> runtime \<Rightarrow> Token \<Rightarrow> Token \<Rightarrow> RfqResponse \<Rightarrow> error + QuoteData \<times> string \<times> int" where
  "checkResponse h rt normalizedSrcToken normalizedDestToken rfq =
     (if status rfq \<noteq> ''success'' then
        Inl (RfqError (failedToFetch h normalizedSrcToken normalizedDestToken
                         @ '': '' @ stringify rt rfq))
      else case quoteData rfq of
        None \<Rightarrow>
          Inl (RfqError (failedToFetch h normalizedSrcToken normalizedDestToken
                           @ ''. Missing quote data''))
      | Some qd \<Rightarrow>
          (case (if signature rfq = Some [] then None else signature rfq) of
             None \<Rightarrow>
               Inl (RfqError (failedToFetch h normalizedSrcToken normalizedDestToken
                                @ ''. Missing signature''))
           | Some sig \<Rightarrow>
               (case (if gasEstimate rfq = Some 0 then None else gasEstimate rfq) of
                  None \<Rightarrow>
                    Inl (RfqError (failedToFetch h normalizedSrcToken normalizedDestToken
                                     @ ''. No gas estimate.''))
                | Some gas \<Rightarrow>
                    if rfqType qd \<noteq> RFQT then
                      Inl (RfqError (failedToFetch h normalizedSrcToken normalizedDestToken
                                       @ ''. Invalid RFQ type.''))
                    else if rfqBaseToken qd \<noteq> address normalizedSrcToken then
                      Inl (Error (''Assertion Error: QuoteData baseToken='' @ rfqBaseToken qd
                                    @ '' is different from srcToken='' @ address normalizedSrcToken))
                    else if rfqQuoteToken qd \<noteq> address normalizedDestToken then
                      Inl (Error (''Assertion Error: QuoteData baseToken='' @ rfqQuoteToken qd
                                    @ '' is different from srcToken='' @ address normalizedDestToken))
                    else Inr (qd, sig, gas))))"

text \<open>
  The slippage check, lines 574 to 605, on the four amounts as bigints.
  \<^verbatim>\<open>new BigNumber(destAmount.toString())\<close> is the bigint as a \<^verbatim>\<open>BigNumber\<close>, and
  \<^verbatim>\<open>BigInt(x.toFixed(0))\<close> rounds to an integer, or throws when \<open>x\<close> is not finite.
\<close>

definition slippageCheck ::
  "Hashflow \<Rightarrow> SwapSide \<Rightarrow> int \<Rightarrow> int \<Rightarrow> int \<Rightarrow> int \<Rightarrow> bignumber \<Rightarrow> error + unit" where
  "slippageCheck h side quoteTokenAmount' baseTokenAmount' srcAmount' destAmount' slippageFactor' =
     (if side = SELL then
        (case toFixed0_BigInt (multipliedBy (Fin (of_int destAmount')) slippageFactor') of
           Inl e \<Rightarrow> Inl e
         | Inr limit \<Rightarrow>
             if quoteTokenAmount' < limit then
               Inl (SlippageCheckError
                     (dexKey h @ ''-'' @ network h @ '': too much slippage on quote ''
                      @ sideName side @ '' quoteTokenAmount '' @ intToString quoteTokenAmount'
                      @ '' / destAmount '' @ intToString destAmount' @ '' < ''
                      @ bn_toString slippageFactor'))
             else Inr ())
      else if quoteTokenAmount' < destAmount' then
        Inl (SlippageCheckError
              (dexKey h @ ''-'' @ network h @ '': too much slippage on quote ''
               @ sideName side @ ''  quoteTokenAmount '' @ intToString quoteTokenAmount'
               @ '' < destAmount '' @ intToString destAmount'))
      else
        (case toFixed0_BigInt (multipliedBy slippageFactor' (Fin (of_int srcAmount'))) of
           Inl e \<Rightarrow> Inl e
         | Inr limit \<Rightarrow>
             if baseTokenAmount' > limit then
               Inl (SlippageCheckError
                     (dexKey h @ ''-'' @ network h @ '': too much slippage on quote ''
                      @ sideName side @ '' baseTokenAmount '' @ intToString baseTokenAmount'
                      @ '' / srcAmount '' @ intToString srcAmount' @ '' > ''
                      @ bn_toFixed slippageFactor'))
             else Inr ()))"

text \<open>The check raised a \<^verbatim>\<open>SlippageCheckError\<close>.\<close>

fun isSlippageCheckError :: "error + 'a \<Rightarrow> bool" where
  "isSlippageCheckError (Inl (SlippageCheckError _)) = True"
| "isSlippageCheckError _ = False"

definition toBigInt :: "runtime \<Rightarrow> string \<Rightarrow> error + int" where
  "toBigInt rt s =
     (case BigInt rt s of
        None \<Rightarrow> Inl (SyntaxError (''Cannot convert '' @ s @ '' to a BigInt''))
      | Some i \<Rightarrow> Inr i)"

text \<open>The body of the \<^verbatim>\<open>try\<close> block, lines 489 to 618, given the outcome of the request.\<close>

definition tryBlock ::
  "Hashflow \<Rightarrow> runtime \<Rightarrow> quoteOutcome \<Rightarrow> OptimalSwapExchange \<Rightarrow> Token \<Rightarrow> Token \<Rightarrow> SwapSide
     \<Rightarrow> PreprocessTransactionOptions \<Rightarrow> string \<Rightarrow> error + OptimalSwapExchange \<times> ExchangeTxInfo" where
  "tryBlock h rt outcome optimalSwapExchange normalizedSrcToken normalizedDestToken side options maker =
     (case outcome of
        Rejects e \<Rightarrow> Inl e
      | Resolves rfq \<Rightarrow>
          (case checkResponse h rt normalizedSrcToken normalizedDestToken rfq of
             Inl e \<Rightarrow> Inl e
           | Inr (qd, sig, gas) \<Rightarrow>
               (let minDeadline = (if quoteExpiry qd > 0 then quoteExpiry qd else BI_MAX_UINT256)
                in case toBigInt rt (baseTokenAmount qd) of
                     Inl e \<Rightarrow> Inl e
                   | Inr baseTokenAmount' \<Rightarrow>
                 (case toBigInt rt (quoteTokenAmount qd) of
                     Inl e \<Rightarrow> Inl e
                   | Inr quoteTokenAmount' \<Rightarrow>
                 (case toBigInt rt (srcAmount optimalSwapExchange) of
                     Inl e \<Rightarrow> Inl e
                   | Inr srcAmount' \<Rightarrow>
                 (case toBigInt rt (destAmount optimalSwapExchange) of
                     Inl e \<Rightarrow> Inl e
                   | Inr destAmount' \<Rightarrow>
                 (case slippageCheck h side quoteTokenAmount' baseTokenAmount' srcAmount'
                         destAmount' (slippageFactor options) of
                     Inl e \<Rightarrow> Inl e
                   | Inr _ \<Rightarrow>
                       Inr (optimalSwapExchange
                              \<lparr>data := Some \<lparr>dataMM = maker, dataQuoteData = Some qd,
                                             dataSignature = Some sig,
                                             dataGasEstimate = Some gas\<rparr>\<rparr>,
                            \<lparr>deadline = minDeadline\<rparr>))))))))"

definition restrictedUserSignal :: string where
  "restrictedUserSignal = ''User is restricted from using Hashflow''"

text \<open>
  \<^verbatim>\<open>preProcessTransaction\<close>: the result or the exception, and the cache after the call.
  \<open>now\<close> is the value of \<^verbatim>\<open>Date.now()\<close> and \<open>outcome\<close> the outcome of the request.
\<close>

definition preProcessTransaction ::
  "Hashflow \<Rightarrow> runtime \<Rightarrow> int \<Rightarrow> quoteOutcome \<Rightarrow> cache \<Rightarrow> OptimalSwapExchange \<Rightarrow> Token \<Rightarrow> Token
     \<Rightarrow> SwapSide \<Rightarrow> PreprocessTransactionOptions
     \<Rightarrow> (error + OptimalSwapExchange \<times> ExchangeTxInfo) \<times> cache" where
  "preProcessTransaction h rt now outcome c optimalSwapExchange srcToken destToken side options =
     (if isBlacklisted c (txOrigin options) then
        (Inl (Error (dexKey h @ ''-'' @ network h @ '': user='' @ toLowerCase (txOrigin options)
                     @ '' is blacklisted'')), c)
      else case data optimalSwapExchange of
        None \<Rightarrow>
          (Inl (Error (''Assertion Error: '' @ dexKey h @ ''-'' @ network h
                       @ '': MM was not provided in data'')), c)
      | Some d \<Rightarrow>
          (let maker = dataMM d;
               normalizedSrcToken = normalizeToken srcToken;
               normalizedDestToken = normalizeToken destToken
           in case tryBlock h rt outcome optimalSwapExchange normalizedSrcToken normalizedDestToken
                     side options maker of
                Inr result \<Rightarrow> (Inr result, c)
              | Inl e \<Rightarrow>
                  (Inl e,
                   if isErrorObject e \<and> endsWith (message e) restrictedUserSignal
                   then setBlacklist h (txOrigin options) c
                   else restrictMM maker now c)))"

text \<open>An instance, a runtime that reads decimal digits, and the data of the examples.\<close>

definition exampleHashflow :: Hashflow where
  "exampleHashflow = \<lparr>dexKey = ''Hashflow'', network = ''1'', blacklistTtl = 86400\<rparr>"

definition digitsRuntime :: runtime where
  "digitsRuntime =
     \<lparr>BigInt = (\<lambda>s. if s = [] then None else map_option int (digits_value 0 s)),
      stringify = (\<lambda>rfq. ''{}'')\<rparr>"

definition emptyCache :: cache where
  "emptyCache = \<lparr>entries = [(''levels'', ''{}'', 30)], restricted = []\<rparr>"

definition exampleSwap :: OptimalSwapExchange where
  "exampleSwap =
     \<lparr>srcAmount = ''50'', destAmount = ''100'',
      data = Some \<lparr>dataMM = ''mm1'', dataQuoteData = None, dataSignature = None,
                   dataGasEstimate = None\<rparr>\<rparr>"

definition exampleOptions :: PreprocessTransactionOptions where
  "exampleOptions = \<lparr>txOrigin = ''0xC0FFEE'', slippageFactor = Fin (99 / 100)\<rparr>"

definition exampleResponse :: "string \<Rightarrow> RfqResponse" where
  "exampleResponse quoted =
     \<lparr>status = ''success'',
      quoteData = Some \<lparr>rfqType = RFQT, rfqBaseToken = ''0xa'', rfqQuoteToken = ''0xb'',
                        baseTokenAmount = ''50'', quoteTokenAmount = quoted, quoteExpiry = 0\<rparr>,
      signature = Some ''0x1b'', gasEstimate = Some 100000\<rparr>"

definition restrictedUserError :: error where
  "restrictedUserError = Error ''Request failed: User is restricted from using Hashflow''"

definition exampleSlippageError :: error where
  "exampleSlippageError =
     SlippageCheckError
       ''Hashflow-1: too much slippage on quote SELL quoteTokenAmount 98 / destAmount 100 < 0.99''"

definition exampleCall ::
  "quoteOutcome \<Rightarrow> (error + OptimalSwapExchange \<times> ExchangeTxInfo) \<times> cache" where
  "exampleCall outcome =
     preProcessTransaction exampleHashflow digitsRuntime 1700000000000 outcome emptyCache
       exampleSwap tokenA tokenB SELL exampleOptions"

section \<open>Properties of the restriction cache\<close>

lemma restriction_fold_restricted:
  "restrictedMMs (foldl (restriction_step f th) st es) =
     restrictedMMs st \<union> {mm. \<exists>c. (mm, c) \<in> set es \<and> \<not> num_lt (f c) th}"
  by (induction es arbitrary: st) (auto simp: restriction_step_def split: if_splits)

lemma restriction_fold_toDelete:
  "set (toDelete (foldl (restriction_step f th) st es)) =
     set (toDelete st) \<union> {mm. \<exists>c. (mm, c) \<in> set es \<and> num_lt (f c) th}"
  by (induction es arbitrary: st) (auto simp: restriction_step_def split: if_splits)

lemma returned_iff:
  "mm \<in> returned (parseCacheRestrictionAndExpiryIfNeeded f now ttl es) \<longleftrightarrow>
     (\<exists>c. (mm, c) \<in> set es \<and> \<not> num_lt (f c) (expirationThreshold now ttl))"
  by (simp add: parseCacheRestrictionAndExpiryIfNeeded_def Let_def restriction_fold_restricted)

lemma scheduled_iff:
  "scheduledForDeletion (parseCacheRestrictionAndExpiryIfNeeded f now ttl es) mm \<longleftrightarrow>
     (\<exists>c. (mm, c) \<in> set es \<and> num_lt (f c) (expirationThreshold now ttl))"
proof -
  let ?st = "foldl (restriction_step f (expirationThreshold now ttl))
               \<lparr>restrictedMMs = {}, toDelete = []\<rparr> es"
  have "scheduledForDeletion (parseCacheRestrictionAndExpiryIfNeeded f now ttl es) mm
          \<longleftrightarrow> mm \<in> set (toDelete ?st)"
    by (cases "toDelete ?st")
       (simp_all add: scheduledForDeletion_def parseCacheRestrictionAndExpiryIfNeeded_def
          Let_def)
  then show ?thesis
    by (simp add: restriction_fold_toDelete)
qed

lemma distinct_keys_unique:
  "distinct (map fst es) \<Longrightarrow> (k, a) \<in> set es \<Longrightarrow> (k, b) \<in> set es \<Longrightarrow> a = b"
  by (meson eq_key_imp_eq_value)

text \<open>
  Claim C7. For every entry of the cache whose stored value coerces to a finite timestamp:
  when the timestamp is older than \<open>now\<close> minus the restriction window, the maker is left
  out of the returned set and is scheduled for deletion; when it is within the window
  (the boundary included), the maker is in the returned set and is not scheduled.
  In particular an entry created at \<open>now - (window + 1)\<close> is excluded and scheduled, and
  one created at \<open>now - (window - 1)\<close> is included. The window is \<open>ttl_s * 1000\<close> ms.
\<close>

theorem restriction_expiry:
  assumes "distinct (map fst cachedValues)"
      and "(mm, createdAt) \<in> set cachedValues"
      and "toNumber createdAt = Num t"
      and "r = parseCacheRestrictionAndExpiryIfNeeded toNumber now ttl_s cachedValues"
  shows "(t < of_int (now - ttl_s * 1000) \<longrightarrow> mm \<notin> returned r \<and> scheduledForDeletion r mm)
       \<and> (of_int (now - ttl_s * 1000) \<le> t \<longrightarrow> mm \<in> returned r \<and> \<not> scheduledForDeletion r mm)
       \<and> (t = of_int (now - (ttl_s * 1000 + 1)) \<longrightarrow> mm \<notin> returned r \<and> scheduledForDeletion r mm)
       \<and> (t = of_int (now - (ttl_s * 1000 - 1)) \<longrightarrow>
            mm \<in> returned r \<and> \<not> scheduledForDeletion r mm)"
proof -
  have only: "\<And>c. (mm, c) \<in> set cachedValues \<Longrightarrow> c = createdAt"
    using assms(1,2) distinct_keys_unique by fastforce
  have lt: "num_lt (toNumber createdAt) (expirationThreshold now ttl_s) \<longleftrightarrow>
              t < of_int (now - ttl_s * 1000)"
    unfolding assms(3) expirationThreshold_def num_lt.simps ..
  have old: "mm \<notin> returned r \<and> scheduledForDeletion r mm" if "t < of_int (now - ttl_s * 1000)"
    using that only lt assms(2) unfolding assms(4) returned_iff scheduled_iff by blast
  have fresh: "mm \<in> returned r \<and> \<not> scheduledForDeletion r mm" if "of_int (now - ttl_s * 1000) \<le> t"
    using that only lt assms(2) unfolding assms(4) returned_iff scheduled_iff by (metis not_le)
  have a: "t < of_int (now - ttl_s * 1000)" if "t = of_int (now - (ttl_s * 1000 + 1))"
    unfolding that of_int_less_iff by simp
  have b: "of_int (now - ttl_s * 1000) \<le> t" if "t = of_int (now - (ttl_s * 1000 - 1))"
    unfolding that of_int_le_iff by simp
  show ?thesis
    using old fresh a b by blast
qed

theorem restriction_expiry_witness:
  "''mm1'' \<notin> returned (parseCacheRestrictionAndExpiryIfNeeded digitsToNumber 1000000 600
       [(''mm1'', ''399999''), (''mm2'', ''400001'')])
   \<and> scheduledForDeletion (parseCacheRestrictionAndExpiryIfNeeded digitsToNumber 1000000 600
       [(''mm1'', ''399999''), (''mm2'', ''400001'')]) ''mm1''
   \<and> ''mm2'' \<in> returned (parseCacheRestrictionAndExpiryIfNeeded digitsToNumber 1000000 600
       [(''mm1'', ''399999''), (''mm2'', ''400001'')])
   \<and> \<not> scheduledForDeletion (parseCacheRestrictionAndExpiryIfNeeded digitsToNumber 1000000 600
       [(''mm1'', ''399999''), (''mm2'', ''400001'')]) ''mm2''"
proof -
  let ?es = "[(''mm1'', ''399999''), (''mm2'', ''400001'')]"
  have d: "distinct (map fst ?es)" by simp
  have n1: "digitsToNumber ''399999'' = Num 399999"
    by (simp add: digitsToNumber_def digit_of_def)
  have n2: "digitsToNumber ''400001'' = Num 400001"
    by (simp add: digitsToNumber_def digit_of_def)
  have m1: "(''mm1'', ''399999'') \<in> set ?es" and m2: "(''mm2'', ''400001'') \<in> set ?es"
    by simp_all
  show ?thesis
    using restriction_expiry [where toNumber = digitsToNumber and cachedValues = "?es"
            and mm = "''mm1''" and createdAt = "''399999''" and t = 399999
            and now = 1000000 and ttl_s = 600, OF d m1 n1 refl]
          restriction_expiry [where toNumber = digitsToNumber and cachedValues = "?es"
            and mm = "''mm2''" and createdAt = "''400001''" and t = 400001
            and now = 1000000 and ttl_s = 600, OF d m2 n2 refl]
    by simp
qed

text \<open>
  Claim C10. An entry whose stored value does not coerce to a number (the coercion gives
  NaN) keeps its maker in the returned set and is never scheduled for deletion, whatever
  the clock and the window are.
\<close>

theorem restriction_nan_kept:
  assumes "distinct (map fst cachedValues)"
      and "(mm, createdAt) \<in> set cachedValues"
      and "toNumber createdAt = NumNaN"
  shows "mm \<in> returned (parseCacheRestrictionAndExpiryIfNeeded toNumber now ttl_s cachedValues)
       \<and> \<not> scheduledForDeletion
             (parseCacheRestrictionAndExpiryIfNeeded toNumber now ttl_s cachedValues) mm"
proof -
  have only: "\<And>c. (mm, c) \<in> set cachedValues \<Longrightarrow> c = createdAt"
    using assms(1,2) distinct_keys_unique by fastforce
  have "\<not> num_lt (toNumber createdAt) (expirationThreshold now ttl_s)"
    by (simp add: assms(3))
  then show ?thesis
    using only assms(2) unfolding returned_iff scheduled_iff by blast
qed

theorem restriction_nan_kept_witness:
  "''mm1'' \<in> returned (parseCacheRestrictionAndExpiryIfNeeded digitsToNumber 1000000 600
       [(''mm1'', ''soon''), (''mm2'', ''1'')])
   \<and> \<not> scheduledForDeletion (parseCacheRestrictionAndExpiryIfNeeded digitsToNumber 1000000 600
       [(''mm1'', ''soon''), (''mm2'', ''1'')]) ''mm1''"
proof -
  let ?es = "[(''mm1'', ''soon''), (''mm2'', ''1'')]"
  have d: "distinct (map fst ?es)" by simp
  have n: "digitsToNumber ''soon'' = NumNaN"
    by (simp add: digitsToNumber_def digit_of_def)
  have m: "(''mm1'', ''soon'') \<in> set ?es" by simp
  show ?thesis
    using restriction_nan_kept [where toNumber = digitsToNumber and cachedValues = "?es"
            and mm = "''mm1''" and createdAt = "''soon''" and now = 1000000 and ttl_s = 600,
            OF d m n]
    by simp
qed

section \<open>Properties of the price-level curve\<close>

lemma bn_compare_Fin [simp]:
  "bn_lt (Fin a) (Fin b) \<longleftrightarrow> a < b"
  "bn_lte (Fin a) (Fin b) \<longleftrightarrow> a \<le> b"
  "bn_gt (Fin a) (Fin b) \<longleftrightarrow> b < a"
  "bn_gte (Fin a) (Fin b) \<longleftrightarrow> b \<le> a"
  by (auto simp: bn_lt_def bn_lte_def bn_gt_def bn_gte_def)

lemma bn_minus_Fin [simp]: "bn_minus (Fin a) (Fin b) = Fin (a - b)"
  by (simp add: bn_minus_def)

lemma floor_plus_half: "\<lfloor>(of_int n :: rat) + 1 / 2\<rfloor> = n"
  by (simp add: floor_eq_iff)

lemma round_half_up_of_int [simp]: "round_half_up (of_int n) = n"
proof (cases "0 \<le> n")
  case True
  then show ?thesis
    by (simp add: round_half_up_def floor_plus_half)
next
  case False
  have "\<lfloor>- (of_int n :: rat) + 1 / 2\<rfloor> = - n"
    using floor_plus_half [of "- n"] by simp
  with False show ?thesis
    by (simp add: round_half_up_def)
qed

lemma round_half_up_numeral [simp]:
  "round_half_up (numeral k) = numeral k" "round_half_up 0 = 0" "round_half_up 1 = 1"
  using round_half_up_of_int [of "numeral k"] round_half_up_of_int [of 0] round_half_up_of_int [of 1]
  by simp_all

lemma bn_gt_not_lte: "bn_gt a b \<Longrightarrow> \<not> bn_lte a b"
  by (auto simp: bn_gt_def bn_lte_def)

lemma decimalBN_examples:
  "decimalBN ''0'' = Fin 0" "decimalBN ''2'' = Fin 2" "decimalBN ''3'' = Fin 3"
  "decimalBN ''10'' = Fin 10" "decimalBN ''20'' = Fin 20"
  by (simp_all add: decimalBN_def unsignedDecimal_def split_at_dot_def digit_of_def)

lemmas levelsLoop_unfold = levelsLoop.simps

declare levelsLoop.simps [simp del]

text \<open>
  The loop, entered at index \<open>i\<close> with the cumulative amounts of level \<open>i - 1\<close>, returns
  the interpolation in the first tier from \<open>i\<close> on that reaches the requested base amount,
  and \<^verbatim>\<open>undefined\<close> when there is none.
\<close>

lemma levelsLoop_base:
  assumes "0 < i"
  shows "levelsLoop ls (Some req) None i
           \<lparr>baseAmount = levelBN (ls ! (i - 1)), quoteAmount = cumulativeQuote ls (i - 1)\<rparr>
         = map_option (interpolateInTier ls req) (firstLevelAtLeast ls req i)"
  using assms
proof (induction "length ls - i" arbitrary: i)
  case 0
  then have "\<not> i < length ls" by simp
  then show ?case
    by (simp add: levelsLoop_unfold [of ls _ _ i] firstLevelAtLeast_def)
next
  case (Suc n)
  then have lt: "i < length ls" by simp
  obtain k where k: "i = Suc k" using Suc.prems by (cases i) auto
  have upt: "[i..<length ls] = i # [Suc i..<length ls]"
    using lt by (simp add: upt_conv_Cons)
  show ?case
  proof (cases "bn_lte req (levelBN (ls ! i))")
    case True
    then show ?thesis
      using lt
      by (simp add: levelsLoop_unfold [of ls _ _ i] firstLevelAtLeast_def upt interpolateInTier_def
            Let_def)
  next
    case False
    have step: "n = length ls - Suc i" using Suc.hyps(2) by simp
    have IH: "levelsLoop ls (Some req) None (Suc i)
                \<lparr>baseAmount = levelBN (ls ! i), quoteAmount = cumulativeQuote ls i\<rparr>
              = map_option (interpolateInTier ls req) (firstLevelAtLeast ls req (Suc i))"
      using Suc.hyps(1) [OF step] by simp
    have cq: "bn_plus (cumulativeQuote ls (i - Suc 0))
                (multipliedBy (bn_minus (levelBN (ls ! i)) (levelBN (ls ! (i - Suc 0)))) (priceBN (ls ! i)))
              = cumulativeQuote ls i"
      by (simp add: k)
    show ?thesis
      using lt False IH
      by (simp add: levelsLoop_unfold [of ls _ _ i] firstLevelAtLeast_def upt Let_def cq)
  qed
qed

lemma toPriceLevelsBN_Nil [simp]: "toPriceLevelsBN bn pl = [] \<longleftrightarrow> pl = []"
  by (simp add: toPriceLevelsBN_def)

lemma toPriceLevelsBN_hd:
  "pl \<noteq> [] \<Longrightarrow> levelBN (toPriceLevelsBN bn pl ! 0) = bn (level (hd pl))"
  by (cases pl) (simp_all add: toPriceLevelsBN_def)

text \<open>
  Claim C1. A request by base amount on a list of levels that is walked (the list is not
  empty and the request is not below the first level) returns the linear interpolation in
  the first tier whose cumulative size is at least the request, at that tier's marginal
  price: the cumulative quote at the prior level plus the requested base less the
  cumulative base at the prior level, times the tier price; without such a tier it is
  unfillable. For the levels \<open>0 @ 2\<close>, \<open>10 @ 2\<close>, \<open>20 @ 3\<close> and the base amount 15 the
  quote is 35.
\<close>

theorem computeLevelsQuote_base_interpolates:
  "computeLevelsQuote bn priceLevels (Some req) None =
     (if priceLevels = [] \<or> bn_lt req (bn (level (hd priceLevels))) then None
      else specQuoteForBase (toPriceLevelsBN bn priceLevels) req)
   \<and> computeLevelsQuote decimalBN exampleLevels (Some (Fin 15)) None = Some (Fin 35)"
proof
  show "computeLevelsQuote bn priceLevels (Some req) None =
     (if priceLevels = [] \<or> bn_lt req (bn (level (hd priceLevels))) then None
      else specQuoteForBase (toPriceLevelsBN bn priceLevels) req)"
  proof (cases "priceLevels = []")
    case True
    then show ?thesis
      by (simp add: computeLevelsQuote_def)
  next
    case False
    let ?ls = "toPriceLevelsBN bn priceLevels"
    have first: "levelBN (?ls ! 0) = bn (level (hd priceLevels))"
      using False by (rule toPriceLevelsBN_hd)
    have loop: "levelsLoop ?ls (Some req) None 1
                  \<lparr>baseAmount = levelBN (?ls ! 0),
                     quoteAmount = multipliedBy (levelBN (?ls ! 0)) (priceBN (?ls ! 0))\<rparr>
                = specQuoteForBase ?ls req"
      using levelsLoop_base [of 1 ?ls req] by (simp add: specQuoteForBase_def)
    have "computeLevelsQuote bn priceLevels (Some req) None =
            (if bn_lt req (levelBN (?ls ! 0)) then None else specQuoteForBase ?ls req)"
      using False loop by (simp add: computeLevelsQuote_def Let_def)
    then show ?thesis
      using False by (simp add: first)
  qed
  have ex: "toPriceLevelsBN decimalBN exampleLevels =
      [\<lparr>levelBN = Fin 0, priceBN = Fin 2\<rparr>, \<lparr>levelBN = Fin 10, priceBN = Fin 2\<rparr>,
       \<lparr>levelBN = Fin 20, priceBN = Fin 3\<rparr>]"
    by (simp add: toPriceLevelsBN_def exampleLevels_def decimalBN_examples)
  show "computeLevelsQuote decimalBN exampleLevels (Some (Fin 15)) None = Some (Fin 35)"
    by (simp add: computeLevelsQuote_def Let_def ex levelsLoop_unfold)
qed

lemma levelsLoop_quote:
  assumes "0 < i"
  shows "levelsLoop ls None (Some req) i
           \<lparr>baseAmount = levelBN (ls ! (i - 1)), quoteAmount = cumulativeQuote ls (i - 1)\<rparr>
         = map_option (impliedBaseInTier ls req) (firstQuoteAtLeast ls req i)"
  using assms
proof (induction "length ls - i" arbitrary: i)
  case 0
  then have "\<not> i < length ls" by simp
  then show ?case
    by (simp add: levelsLoop_unfold [of ls _ _ i] firstQuoteAtLeast_def)
next
  case (Suc n)
  then have lt: "i < length ls" by simp
  obtain k where k: "i = Suc k" using Suc.prems by (cases i) auto
  have upt: "[i..<length ls] = i # [Suc i..<length ls]"
    using lt by (simp add: upt_conv_Cons)
  have cq: "bn_plus (cumulativeQuote ls (i - Suc 0))
              (multipliedBy (bn_minus (levelBN (ls ! i)) (levelBN (ls ! (i - Suc 0)))) (priceBN (ls ! i)))
            = cumulativeQuote ls i"
    by (simp add: k)
  show ?case
  proof (cases "bn_lte req (cumulativeQuote ls i)")
    case True
    then show ?thesis
      using lt
      by (simp add: levelsLoop_unfold [of ls _ _ i] firstQuoteAtLeast_def upt impliedBaseInTier_def
            Let_def cq)
  next
    case False
    have step: "n = length ls - Suc i" using Suc.hyps(2) by simp
    have IH: "levelsLoop ls None (Some req) (Suc i)
                \<lparr>baseAmount = levelBN (ls ! i), quoteAmount = cumulativeQuote ls i\<rparr>
              = map_option (impliedBaseInTier ls req) (firstQuoteAtLeast ls req (Suc i))"
      using Suc.hyps(1) [OF step] by simp
    show ?thesis
      using lt False IH
      by (simp add: levelsLoop_unfold [of ls _ _ i] firstQuoteAtLeast_def upt Let_def cq)
  qed
qed

lemma computeLevelsQuote_quote:
  "computeLevelsQuote bn priceLevels None (Some req) =
     (if priceLevels = [] \<or> bn_lt req (cumulativeQuote (toPriceLevelsBN bn priceLevels) 0) then None
      else specBaseForQuote (toPriceLevelsBN bn priceLevels) req)"
  using levelsLoop_quote [of 1 "toPriceLevelsBN bn priceLevels" req]
  by (simp add: computeLevelsQuote_def Let_def specBaseForQuote_def)

lemma computeLevelsQuote_base:
  "computeLevelsQuote bn priceLevels (Some req) None =
     (if priceLevels = [] \<or> bn_lt req (levelBN (toPriceLevelsBN bn priceLevels ! 0)) then None
      else specQuoteForBase (toPriceLevelsBN bn priceLevels) req)"
  using levelsLoop_base [of 1 "toPriceLevelsBN bn priceLevels" req]
  by (simp add: computeLevelsQuote_def Let_def specQuoteForBase_def)

lemma find_None_upt:
  "(\<And>j. i \<le> j \<Longrightarrow> j < n \<Longrightarrow> \<not> P j) \<Longrightarrow> find P [i..<n] = None"
  by (simp add: find_None_iff)

lemma exampleLevelsBN:
  "toPriceLevelsBN decimalBN exampleLevels =
      [\<lparr>levelBN = Fin 0, priceBN = Fin 2\<rparr>, \<lparr>levelBN = Fin 10, priceBN = Fin 2\<rparr>,
       \<lparr>levelBN = Fin 20, priceBN = Fin 3\<rparr>]"
  by (simp add: toPriceLevelsBN_def exampleLevels_def decimalBN_examples)

text \<open>
  Claim C4. \<^verbatim>\<open>computeLevelsQuote\<close> returns \<^verbatim>\<open>undefined\<close> when both request parameters
  are supplied, when the list of levels is empty, and when the requested amount exceeds
  the cumulative size of the deepest level: a base amount above the size of every level,
  or a quote amount above the cumulative quote amount at every level.
\<close>

theorem computeLevelsQuote_unfillable:
  "computeLevelsQuote bn priceLevels (Some b) (Some r) = None
   \<and> computeLevelsQuote bn [] reqBaseAmount reqQuoteAmount = None
   \<and> ((\<forall>l \<in> set priceLevels. bn_gt b (bn (level l))) \<longrightarrow>
        computeLevelsQuote bn priceLevels (Some b) None = None)
   \<and> ((\<forall>i < length priceLevels. bn_gt r (cumulativeQuote (toPriceLevelsBN bn priceLevels) i)) \<longrightarrow>
        computeLevelsQuote bn priceLevels None (Some r) = None)"
proof (intro conjI impI)
  show "computeLevelsQuote bn priceLevels (Some b) (Some r) = None"
    by (simp add: computeLevelsQuote_def)
  show "computeLevelsQuote bn [] reqBaseAmount reqQuoteAmount = None"
    by (simp add: computeLevelsQuote_def Let_def toPriceLevelsBN_def)
next
  let ?ls = "toPriceLevelsBN bn priceLevels"
  assume deep: "\<forall>l \<in> set priceLevels. bn_gt b (bn (level l))"
  have "\<not> bn_lte b (levelBN (?ls ! j))" if "j < length ?ls" for j
  proof -
    have "levelBN (?ls ! j) = bn (level (priceLevels ! j))"
      using that by (simp add: toPriceLevelsBN_def)
    moreover have "priceLevels ! j \<in> set priceLevels"
      using that by (simp add: toPriceLevelsBN_def)
    ultimately show ?thesis
      using deep bn_gt_not_lte by auto
  qed
  then have "firstLevelAtLeast ?ls b 1 = None"
    unfolding firstLevelAtLeast_def by (intro find_None_upt) blast
  then show "computeLevelsQuote bn priceLevels (Some b) None = None"
    by (simp add: computeLevelsQuote_base specQuoteForBase_def)
next
  let ?ls = "toPriceLevelsBN bn priceLevels"
  assume deep: "\<forall>i < length priceLevels. bn_gt r (cumulativeQuote ?ls i)"
  have "\<not> bn_lte r (cumulativeQuote ?ls j)" if "j < length ?ls" for j
    using that deep bn_gt_not_lte by (simp add: toPriceLevelsBN_def)
  then have "firstQuoteAtLeast ?ls r 1 = None"
    unfolding firstQuoteAtLeast_def by (intro find_None_upt) blast
  then show "computeLevelsQuote bn priceLevels None (Some r) = None"
    by (simp add: computeLevelsQuote_quote specBaseForQuote_def)
qed

theorem computeLevelsQuote_unfillable_witness:
  "computeLevelsQuote decimalBN exampleLevels (Some (Fin 1)) (Some (Fin 1)) = None
   \<and> computeLevelsQuote decimalBN [] (Some (Fin 1)) None = None
   \<and> computeLevelsQuote decimalBN exampleLevels (Some (Fin 25)) None = None
   \<and> computeLevelsQuote decimalBN exampleLevels None (Some (Fin 51)) = None"
proof -
  have base: "\<forall>l \<in> set exampleLevels. bn_gt (Fin 25) (decimalBN (level l))"
    by (simp add: exampleLevels_def decimalBN_examples)
  have "bn_gt (Fin 51) (cumulativeQuote (toPriceLevelsBN decimalBN exampleLevels) i)" if "i < 3" for i
  proof -
    from that consider "i = 0" | "i = 1" | "i = 2" by linarith
    then show ?thesis
      by cases (simp_all add: exampleLevelsBN numeral_2_eq_2)
  qed
  then have quote: "\<forall>i < length exampleLevels.
      bn_gt (Fin 51) (cumulativeQuote (toPriceLevelsBN decimalBN exampleLevels) i)"
    by (simp add: exampleLevels_def)
  show ?thesis
    using base quote
      computeLevelsQuote_unfillable [of decimalBN exampleLevels "Fin 1" "Fin 1" "Some (Fin 1)" None]
      computeLevelsQuote_unfillable [of decimalBN exampleLevels "Fin 25" "Fin 51" "Some (Fin 1)" None]
    by simp
qed

section \<open>Properties of the prices for a sequence of amounts\<close>

lemma addZeroLevel_idem:
  "bn ''0'' = Fin 0 \<Longrightarrow> addZeroLevel bn (addZeroLevel bn levels) = addZeroLevel bn levels"
  by (cases levels) (simp_all add: addZeroLevel_def)

lemma levelsFrom10_added:
  "addZeroLevel decimalBN levelsFrom10 = exampleLevels"
  by (simp add: addZeroLevel_def levelsFrom10_def exampleLevels_def decimalBN_examples)

text \<open>
  Claim C9, as the code has it. When the list is not empty and the size of its first level
  is greater than zero, the call puts a level of size zero with the first level's price in
  front of the caller's list, and the caller's list keeps it; otherwise the list is left as
  it is. Provided the constructor reads \<^verbatim>\<open>'0'\<close> as zero, a second call on the list the
  first call left, with the same other arguments, returns the same outputs and leaves the
  list as it found it.
\<close>

theorem computePricesFromLevels_zero_level:
  assumes "bn ''0'' = Fin 0"
      and "computePricesFromLevels bn amounts levels srcToken destToken side = (outputs, levels')"
  shows "levels' =
           (if levels \<noteq> [] \<and> bn_gt (bn (level (hd levels))) (Fin 0)
            then \<lparr>level = ''0'', price = price (hd levels)\<rparr> # levels else levels)
         \<and> computePricesFromLevels bn amounts levels' srcToken destToken side = (outputs, levels')"
proof -
  have l': "levels' = addZeroLevel bn levels"
    using assms(2) by (simp add: computePricesFromLevels_def Let_def)
  have out: "outputs = fst (computePricesFromLevels bn amounts levels srcToken destToken side)"
    by (simp add: assms(2))
  have "levels' =
           (if levels \<noteq> [] \<and> bn_gt (bn (level (hd levels))) (Fin 0)
            then \<lparr>level = ''0'', price = price (hd levels)\<rparr> # levels else levels)"
    unfolding l' by (cases levels) (simp_all add: addZeroLevel_def)
  moreover have "computePricesFromLevels bn amounts levels' srcToken destToken side = (outputs, levels')"
    unfolding l' out
    using addZeroLevel_idem [of bn levels] assms(1)
    by (simp add: computePricesFromLevels_def Let_def)
  ultimately show ?thesis by simp
qed

theorem computePricesFromLevels_zero_level_witness:
  "computePricesFromLevels decimalBN [Fin 15] levelsFrom10 plainToken plainToken SELL
     = (Inr [35], \<lparr>level = ''0'', price = ''2''\<rparr> # levelsFrom10)
   \<and> computePricesFromLevels decimalBN [Fin 15] (\<lparr>level = ''0'', price = ''2''\<rparr> # levelsFrom10)
       plainToken plainToken SELL
     = (Inr [35], \<lparr>level = ''0'', price = ''2''\<rparr> # levelsFrom10)"
proof -
  have z: "decimalBN ''0'' = Fin 0"
    by (simp add: decimalBN_examples)
  have l: "\<lparr>level = ''0'', price = ''2''\<rparr> # levelsFrom10 = exampleLevels"
    by (simp add: levelsFrom10_def exampleLevels_def)
  have q: "computeLevelsQuote decimalBN exampleLevels (Some (Fin 15)) None = Some (Fin 35)"
    by (simp add: computeLevelsQuote_def Let_def exampleLevelsBN levelsLoop_unfold)
  have run: "computePricesFromLevels decimalBN [Fin 15] levelsFrom10 plainToken plainToken SELL
     = (Inr [35], \<lparr>level = ''0'', price = ''2''\<rparr> # levelsFrom10)"
    unfolding l
    by (simp add: computePricesFromLevels_def Let_def levelsFrom10_added levelsQuoteFor_def q
          isZero_def plainToken_def getBigNumberPow_def toFixed0_BigInt_def)
  show ?thesis
    using computePricesFromLevels_zero_level [where bn = decimalBN and amounts = "[Fin 15]"
            and levels = levelsFrom10 and srcToken = plainToken and destToken = plainToken
            and side = SELL and outputs = "Inr [35]"
            and levels' = "\<lparr>level = ''0'', price = ''2''\<rparr> # levelsFrom10", OF z run] run
    by blast
qed

text \<open>
  The claim as it is written fails: the caller's list is not what it was before the call.
  After a call on the two levels \<open>10 @ 2\<close>, \<open>20 @ 3\<close> the list has three levels, and
  \<^verbatim>\<open>computeLevelsQuote\<close> on the caller's list for the base amount 5 is unfillable before
  the call and 10 after it.
\<close>

theorem computePricesFromLevels_changes_levels:
  "snd (computePricesFromLevels decimalBN [Fin 15] levelsFrom10 plainToken plainToken SELL)
     \<noteq> levelsFrom10
   \<and> computeLevelsQuote decimalBN levelsFrom10 (Some (Fin 5)) None = None
   \<and> computeLevelsQuote decimalBN
       (snd (computePricesFromLevels decimalBN [Fin 15] levelsFrom10 plainToken plainToken SELL))
       (Some (Fin 5)) None = Some (Fin 10)"
proof -
  have s: "snd (computePricesFromLevels decimalBN [Fin 15] levelsFrom10 plainToken plainToken SELL)
             = exampleLevels"
    by (simp add: computePricesFromLevels_def Let_def levelsFrom10_added)
  have b: "toPriceLevelsBN decimalBN levelsFrom10 =
             [\<lparr>levelBN = Fin 10, priceBN = Fin 2\<rparr>, \<lparr>levelBN = Fin 20, priceBN = Fin 3\<rparr>]"
    by (simp add: toPriceLevelsBN_def levelsFrom10_def decimalBN_examples)
  have "exampleLevels \<noteq> levelsFrom10"
    by (simp add: exampleLevels_def levelsFrom10_def)
  moreover have "computeLevelsQuote decimalBN levelsFrom10 (Some (Fin 5)) None = None"
    by (simp add: computeLevelsQuote_def Let_def b)
  moreover have "computeLevelsQuote decimalBN exampleLevels (Some (Fin 5)) None = Some (Fin 10)"
    by (simp add: computeLevelsQuote_def Let_def exampleLevelsBN levelsLoop_unfold)
  ultimately show ?thesis
    by (simp add: s)
qed

section \<open>Monotonicity of the curve\<close>

lemma find_upt_Some:
  "find P [m..<n] = Some i \<longleftrightarrow> m \<le> i \<and> i < n \<and> P i \<and> (\<forall>j. m \<le> j \<and> j < i \<longrightarrow> \<not> P j)"
proof (induction "n - m" arbitrary: m)
  case 0
  then show ?case by auto
next
  case (Suc k)
  then have lt: "m < n" and upt: "[m..<n] = m # [Suc m..<n]"
    by (simp_all add: upt_conv_Cons)
  have IH: "find P [Suc m..<n] = Some i \<longleftrightarrow>
              Suc m \<le> i \<and> i < n \<and> P i \<and> (\<forall>j. Suc m \<le> j \<and> j < i \<longrightarrow> \<not> P j)"
    using Suc.hyps(1) [of "Suc m"] Suc.hyps(2) by simp
  show ?case
  proof (cases "P m")
    case True
    have "(m \<le> i \<and> i < n \<and> P i \<and> (\<forall>j. m \<le> j \<and> j < i \<longrightarrow> \<not> P j)) \<longleftrightarrow> i = m"
      using True lt by (auto simp: le_less)
    then show ?thesis
      using True by (auto simp: upt)
  next
    case False
    have "(m \<le> i \<and> i < n \<and> P i \<and> (\<forall>j. m \<le> j \<and> j < i \<longrightarrow> \<not> P j)) \<longleftrightarrow>
          (Suc m \<le> i \<and> i < n \<and> P i \<and> (\<forall>j. Suc m \<le> j \<and> j < i \<longrightarrow> \<not> P j))"
      (is "?A \<longleftrightarrow> ?B")
    proof
      assume A: ?A
      then have "i \<noteq> m" using False by blast
      then have "Suc m \<le> i" using A by simp
      then show ?B using A by simp
    next
      assume B: ?B
      have "\<not> P j" if "m \<le> j" "j < i" for j
      proof (cases "j = m")
        case True
        then show ?thesis using False by simp
      next
        case False
        then have "Suc m \<le> j" using that(1) by simp
        then show ?thesis using B that(2) by blast
      qed
      then show ?A using B by simp
    qed
    then show ?thesis
      using False IH by (simp add: upt)
  qed
qed

lemma find_upt_None:
  "find P [m..<n] = None \<longleftrightarrow> (\<forall>j. m \<le> j \<and> j < n \<longrightarrow> \<not> P j)"
  by (auto simp: find_None_iff)

lemma isFinite_conv: "isFinite x \<longleftrightarrow> x = Fin (finValue x)"
  by (cases x) simp_all

lemma curveFinite_nth:
  assumes "curveFinite ls" "j < length ls"
  shows "levelBN (ls ! j) = Fin (finValue (levelBN (ls ! j)))"
    and "priceBN (ls ! j) = Fin (finValue (priceBN (ls ! j)))"
  using assms by (simp_all add: curveFinite_def list_all_length isFinite_conv [symmetric])

lemma cumulativeQuote_step:
  assumes "curveFinite ls" "Suc j < length ls" "cumulativeQuote ls j = Fin q"
  shows "cumulativeQuote ls (Suc j) =
           Fin (q + (finValue (levelBN (ls ! Suc j)) - finValue (levelBN (ls ! j)))
                    * finValue (priceBN (ls ! Suc j)))"
proof -
  have j: "j < length ls" using assms(2) by simp
  obtain a where a: "levelBN (ls ! j) = Fin a"
    using curveFinite_nth(1) [OF assms(1) j] by blast
  obtain b p where b: "levelBN (ls ! Suc j) = Fin b" and p: "priceBN (ls ! Suc j) = Fin p"
    using curveFinite_nth [OF assms(1,2)] by blast
  show ?thesis
    by (simp add: a b p assms(3))
qed

lemma cumulativeQuote_finite:
  assumes "curveFinite ls" "j < length ls"
  shows "cumulativeQuote ls j = Fin (finValue (cumulativeQuote ls j))"
  using assms(2)
proof (induction j)
  case 0
  obtain a p where "levelBN (ls ! 0) = Fin a" "priceBN (ls ! 0) = Fin p"
    using curveFinite_nth [OF assms(1) 0] by blast
  then show ?case by simp
next
  case (Suc j)
  then have "cumulativeQuote ls j = Fin (finValue (cumulativeQuote ls j))" by simp
  from cumulativeQuote_step [OF assms(1) Suc.prems this] show ?case
    by (simp del: cumulativeQuote.simps)
qed

lemma cumulativeQuote_value_Suc:
  assumes "curveFinite ls" "Suc j < length ls"
  shows "finValue (cumulativeQuote ls (Suc j)) =
           finValue (cumulativeQuote ls j)
           + (finValue (levelBN (ls ! Suc j)) - finValue (levelBN (ls ! j)))
             * finValue (priceBN (ls ! Suc j))"
proof -
  have j: "j < length ls" using assms(2) by simp
  from cumulativeQuote_step [OF assms(1,2) cumulativeQuote_finite [OF assms(1) j]]
  show ?thesis
    by (simp del: cumulativeQuote.simps)
qed

lemma sizesAscending_nth:
  "sizesAscending ls \<Longrightarrow> j \<le> k \<Longrightarrow> k < length ls \<Longrightarrow>
     finValue (levelBN (ls ! j)) \<le> finValue (levelBN (ls ! k))"
  by (simp add: sizesAscending_def sorted_iff_nth_mono)

lemma prices_nth:
  "pricesNonNegative ls \<Longrightarrow> j < length ls \<Longrightarrow> 0 \<le> finValue (priceBN (ls ! j))"
  "pricesPositive ls \<Longrightarrow> j < length ls \<Longrightarrow> 0 < finValue (priceBN (ls ! j))"
  by (simp_all add: pricesNonNegative_def pricesPositive_def list_all_length)

lemma pricesPositive_NonNegative: "pricesPositive ls \<Longrightarrow> pricesNonNegative ls"
  by (auto simp: pricesNonNegative_def pricesPositive_def list_all_iff less_imp_le)

lemma cumulativeQuote_mono_Suc:
  assumes "curveFinite ls" "sizesAscending ls" "pricesNonNegative ls" "Suc j < length ls"
  shows "finValue (cumulativeQuote ls j) \<le> finValue (cumulativeQuote ls (Suc j))"
proof -
  have "0 \<le> (finValue (levelBN (ls ! Suc j)) - finValue (levelBN (ls ! j)))
             * finValue (priceBN (ls ! Suc j))"
    using sizesAscending_nth [OF assms(2), of j "Suc j"] prices_nth(1) [OF assms(3,4)] assms(4)
    by simp
  then show ?thesis
    using cumulativeQuote_value_Suc [OF assms(1,4)] by simp
qed

lemma cumulativeQuote_mono:
  assumes "curveFinite ls" "sizesAscending ls" "pricesNonNegative ls" "j \<le> k" "k < length ls"
  shows "finValue (cumulativeQuote ls j) \<le> finValue (cumulativeQuote ls k)"
  using assms(4,5)
proof (induction k)
  case 0
  then show ?case by simp
next
  case (Suc k)
  show ?case
  proof (cases "j = Suc k")
    case True
    then show ?thesis by simp
  next
    case False
    then have "finValue (cumulativeQuote ls j) \<le> finValue (cumulativeQuote ls k)"
      using Suc by simp
    also have "\<dots> \<le> finValue (cumulativeQuote ls (Suc k))"
      using cumulativeQuote_mono_Suc [OF assms(1,2,3) Suc.prems(2)] .
    finally show ?thesis .
  qed
qed
lemma interpolateInTier_finite:
  assumes "curveFinite ls" "0 < i" "i < length ls"
  shows "interpolateInTier ls (Fin a) i =
           Fin (finValue (cumulativeQuote ls (i - 1))
                + (a - finValue (levelBN (ls ! (i - 1)))) * finValue (priceBN (ls ! i)))"
proof -
  obtain k where k: "i = Suc k" using assms(2) by (cases i) auto
  have k1: "k < length ls" using assms(3) k by simp
  obtain q where q: "cumulativeQuote ls k = Fin q"
    using cumulativeQuote_finite [OF assms(1) k1] by blast
  obtain b where b: "levelBN (ls ! k) = Fin b"
    using curveFinite_nth(1) [OF assms(1) k1] by blast
  obtain p where p: "priceBN (ls ! i) = Fin p"
    using curveFinite_nth(2) [OF assms(1,3)] by blast
  show ?thesis
    using p by (simp add: interpolateInTier_def q b k)
qed

lemma firstLevelAtLeast_Some:
  assumes "curveFinite ls"
  shows "firstLevelAtLeast ls (Fin a) m = Some i \<longleftrightarrow>
           m \<le> i \<and> i < length ls \<and> a \<le> finValue (levelBN (ls ! i))
           \<and> (\<forall>j. m \<le> j \<and> j < i \<longrightarrow> \<not> a \<le> finValue (levelBN (ls ! j)))"
proof -
  have le: "bn_lte (Fin a) (levelBN (ls ! j)) \<longleftrightarrow> a \<le> finValue (levelBN (ls ! j))"
    if jl: "j < length ls" for j
  proof -
    obtain b where b: "levelBN (ls ! j) = Fin b"
      using curveFinite_nth(1) [OF assms jl] by blast
    show ?thesis by (simp add: b)
  qed
  show ?thesis
    unfolding firstLevelAtLeast_def find_upt_Some
    using le by (metis (no_types, lifting) less_trans)
qed

lemma firstLevelAtLeast_None:
  assumes "curveFinite ls"
  shows "firstLevelAtLeast ls (Fin a) m = None \<longleftrightarrow>
           (\<forall>j. m \<le> j \<and> j < length ls \<longrightarrow> \<not> a \<le> finValue (levelBN (ls ! j)))"
proof -
  have le: "bn_lte (Fin a) (levelBN (ls ! j)) \<longleftrightarrow> a \<le> finValue (levelBN (ls ! j))"
    if jl: "j < length ls" for j
  proof -
    obtain b where b: "levelBN (ls ! j) = Fin b"
      using curveFinite_nth(1) [OF assms jl] by blast
    show ?thesis by (simp add: b)
  qed
  show ?thesis
    unfolding firstLevelAtLeast_def find_upt_None
    using le by blast
qed

text \<open>
  The arithmetic of the sell side: on an ascending curve with non-negative prices, a
  larger request ends in a later tier and its interpolated quote is not smaller.
\<close>

lemma sell_mono:
  assumes fin: "curveFinite ls" and asc: "sizesAscending ls" and pr: "pricesNonNegative ls"
      and i: "0 < i" "i < length ls" "a \<le> finValue (levelBN (ls ! i))"
      and i': "0 < i'" "i' < length ls" "a' \<le> finValue (levelBN (ls ! i'))"
               "\<forall>j. 1 \<le> j \<and> j < i' \<longrightarrow> \<not> a' \<le> finValue (levelBN (ls ! j))"
      and first: "\<forall>j. 1 \<le> j \<and> j < i \<longrightarrow> \<not> a \<le> finValue (levelBN (ls ! j))"
      and le: "a \<le> a'"
  shows "finValue (cumulativeQuote ls (i - 1))
           + (a - finValue (levelBN (ls ! (i - 1)))) * finValue (priceBN (ls ! i))
         \<le> finValue (cumulativeQuote ls (i' - 1))
           + (a' - finValue (levelBN (ls ! (i' - 1)))) * finValue (priceBN (ls ! i'))"
proof -
  have ii': "i \<le> i'"
  proof (rule ccontr)
    assume "\<not> i \<le> i'"
    then have "\<not> a \<le> finValue (levelBN (ls ! i'))"
      using first i'(1) by simp
    then show False using le i'(3) by simp
  qed
  have pi: "0 \<le> finValue (priceBN (ls ! i))" and pi': "0 \<le> finValue (priceBN (ls ! i'))"
    using prices_nth(1) [OF pr] i(2) i'(2) by simp_all
  show ?thesis
  proof (cases "i = i'")
    case True
    have "(a - finValue (levelBN (ls ! (i - 1)))) * finValue (priceBN (ls ! i))
            \<le> (a' - finValue (levelBN (ls ! (i - 1)))) * finValue (priceBN (ls ! i))"
      using le pi by (intro mult_right_mono) simp_all
    then show ?thesis
      using True by simp
  next
    case False
    then have lt: "i \<le> i' - 1" "1 \<le> i' - 1" "i' - 1 < i'" "i' - 1 < length ls"
      using ii' i(1) i'(2) by simp_all
    obtain k where k: "i = Suc k" using i(1) by (cases i) auto
    have "finValue (cumulativeQuote ls (i - 1))
            + (a - finValue (levelBN (ls ! (i - 1)))) * finValue (priceBN (ls ! i))
          \<le> finValue (cumulativeQuote ls (i - 1))
            + (finValue (levelBN (ls ! i)) - finValue (levelBN (ls ! (i - 1))))
              * finValue (priceBN (ls ! i))"
      using i(3) pi by (simp add: mult_right_mono)
    also have "\<dots> = finValue (cumulativeQuote ls i)"
      using cumulativeQuote_value_Suc [OF fin, of k] i(2) by (simp add: k)
    also have "\<dots> \<le> finValue (cumulativeQuote ls (i' - 1))"
      using cumulativeQuote_mono [OF fin asc pr lt(1) lt(4)] .
    also have "\<dots> \<le> finValue (cumulativeQuote ls (i' - 1))
            + (a' - finValue (levelBN (ls ! (i' - 1)))) * finValue (priceBN (ls ! i'))"
    proof -
      have "\<not> a' \<le> finValue (levelBN (ls ! (i' - 1)))"
        using i'(4) lt(2,3) by blast
      then have "0 \<le> (a' - finValue (levelBN (ls ! (i' - 1)))) * finValue (priceBN (ls ! i'))"
        using pi' by simp
      then show ?thesis by simp
    qed
    finally show ?thesis .
  qed
qed
lemma round_half_up_mono: "x \<le> y \<Longrightarrow> round_half_up x \<le> round_half_up y"
proof -
  assume le: "x \<le> y"
  consider "0 \<le> x" | "x < 0" "0 \<le> y" | "y < 0" by linarith
  then show ?thesis
  proof cases
    case 1
    then show ?thesis
      using le by (simp add: round_half_up_def floor_mono)
  next
    case 2
    have fl: "0 \<le> \<lfloor>- x + 1 / 2\<rfloor>" "0 \<le> \<lfloor>y + 1 / 2\<rfloor>"
      using 2 by simp_all
    have "round_half_up x = - \<lfloor>- x + 1 / 2\<rfloor>" "round_half_up y = \<lfloor>y + 1 / 2\<rfloor>"
      using 2 by (simp_all add: round_half_up_def)
    then show ?thesis
      using fl by linarith
  next
    case 3
    then have fl: "\<lfloor>- y + 1 / 2\<rfloor> \<le> \<lfloor>- x + 1 / 2\<rfloor>"
      using le by (intro floor_mono) simp
    have "round_half_up x = - \<lfloor>- x + 1 / 2\<rfloor>" "round_half_up y = - \<lfloor>- y + 1 / 2\<rfloor>"
      using 3 le by (simp_all add: round_half_up_def)
    then show ?thesis
      using fl by linarith
  qed
qed

lemma round_places_mono: "x \<le> y \<Longrightarrow> round_places dp x \<le> round_places dp y"
proof -
  assume "x \<le> y"
  then have "x * 10 ^ dp \<le> y * 10 ^ dp"
    by (simp add: mult_right_mono)
  then have "round_half_up (x * 10 ^ dp) \<le> round_half_up (y * 10 ^ dp)"
    by (rule round_half_up_mono)
  then show ?thesis
    by (simp add: round_places_def divide_right_mono)
qed

lemma round_places_zero [simp]: "round_places dp 0 = 0"
  by (simp add: round_places_def)

lemma round_places_nonneg: "0 \<le> x \<Longrightarrow> 0 \<le> round_places dp x"
  using round_places_mono [of 0 x dp] by simp

lemma round_places_fixed_int:
  "round_places dp x = x \<longleftrightarrow> (\<exists>n. x * 10 ^ dp = of_int n)"
proof
  assume "round_places dp x = x"
  then have "x * 10 ^ dp = of_int (round_half_up (x * 10 ^ dp))"
    by (simp add: round_places_def field_simps)
  then show "\<exists>n. x * 10 ^ dp = of_int n" ..
next
  assume "\<exists>n. x * 10 ^ dp = of_int n"
  then obtain n where n: "x * 10 ^ dp = of_int n" ..
  then have "round_places dp x = of_int n / 10 ^ dp"
    by (simp add: round_places_def)
  also have "\<dots> = x"
    using n by (simp add: field_simps)
  finally show "round_places dp x = x" .
qed

lemma round_places_diff:
  assumes "round_places dp a = a" "round_places dp b = b"
  shows "round_places dp (a - b) = a - b"
proof -
  obtain m n where "a * 10 ^ dp = of_int m" "b * 10 ^ dp = of_int n"
    using assms unfolding round_places_fixed_int by blast
  then have "(a - b) * 10 ^ dp = of_int (m - n)"
    by (simp add: algebra_simps)
  then show ?thesis
    unfolding round_places_fixed_int by blast
qed

lemma impliedBaseInTier_finite:
  assumes "curveFinite ls" "0 < i" "i < length ls" "finValue (priceBN (ls ! i)) \<noteq> 0"
  shows "impliedBaseInTier ls (Fin r) i =
           Fin (finValue (levelBN (ls ! (i - 1)))
                + round_places DECIMAL_PLACES
                    ((r - finValue (cumulativeQuote ls (i - 1))) / finValue (priceBN (ls ! i))))"
proof -
  obtain k where k: "i = Suc k" using assms(2) by (cases i) auto
  have k1: "k < length ls" using assms(3) k by simp
  obtain q where q: "cumulativeQuote ls k = Fin q"
    using cumulativeQuote_finite [OF assms(1) k1] by blast
  obtain b where b: "levelBN (ls ! k) = Fin b"
    using curveFinite_nth(1) [OF assms(1) k1] by blast
  obtain p where p: "priceBN (ls ! i) = Fin p"
    using curveFinite_nth(2) [OF assms(1,3)] by blast
  show ?thesis
    using p assms(4) by (simp add: impliedBaseInTier_def q b k)
qed

lemma firstQuoteAtLeast_Some:
  assumes "curveFinite ls"
  shows "firstQuoteAtLeast ls (Fin r) m = Some i \<longleftrightarrow>
           m \<le> i \<and> i < length ls \<and> r \<le> finValue (cumulativeQuote ls i)
           \<and> (\<forall>j. m \<le> j \<and> j < i \<longrightarrow> \<not> r \<le> finValue (cumulativeQuote ls j))"
proof -
  have le: "bn_lte (Fin r) (cumulativeQuote ls j) \<longleftrightarrow> r \<le> finValue (cumulativeQuote ls j)"
    if jl: "j < length ls" for j
  proof -
    obtain b where b: "cumulativeQuote ls j = Fin b"
      using cumulativeQuote_finite [OF assms jl] by blast
    show ?thesis by (simp add: b)
  qed
  show ?thesis
    unfolding firstQuoteAtLeast_def find_upt_Some
    using le by (metis (no_types, lifting) less_trans)
qed

lemma firstQuoteAtLeast_None:
  assumes "curveFinite ls"
  shows "firstQuoteAtLeast ls (Fin r) m = None \<longleftrightarrow>
           (\<forall>j. m \<le> j \<and> j < length ls \<longrightarrow> \<not> r \<le> finValue (cumulativeQuote ls j))"
proof -
  have le: "bn_lte (Fin r) (cumulativeQuote ls j) \<longleftrightarrow> r \<le> finValue (cumulativeQuote ls j)"
    if jl: "j < length ls" for j
  proof -
    obtain b where b: "cumulativeQuote ls j = Fin b"
      using cumulativeQuote_finite [OF assms jl] by blast
    show ?thesis by (simp add: b)
  qed
  show ?thesis
    unfolding firstQuoteAtLeast_def find_upt_None
    using le by blast
qed

lemma sizesRounded_nth:
  "sizesRounded ls \<Longrightarrow> j < length ls \<Longrightarrow>
     round_places DECIMAL_PLACES (finValue (levelBN (ls ! j))) = finValue (levelBN (ls ! j))"
  by (simp add: sizesRounded_def list_all_length)

text \<open>
  The arithmetic of the buy side: on an ascending curve with positive prices whose sizes
  have at most \<^verbatim>\<open>DECIMAL_PLACES\<close> places, a larger request ends in a later tier and
  its implied base amount is not smaller.
\<close>

lemma buy_mono:
  assumes fin: "curveFinite ls" and asc: "sizesAscending ls" and pr: "pricesPositive ls"
      and rd: "sizesRounded ls"
      and i: "0 < i" "i < length ls" "r \<le> finValue (cumulativeQuote ls i)"
      and i': "0 < i'" "i' < length ls" "r' \<le> finValue (cumulativeQuote ls i')"
               "\<forall>j. 1 \<le> j \<and> j < i' \<longrightarrow> \<not> r' \<le> finValue (cumulativeQuote ls j)"
      and first: "\<forall>j. 1 \<le> j \<and> j < i \<longrightarrow> \<not> r \<le> finValue (cumulativeQuote ls j)"
      and le: "r \<le> r'"
  shows "finValue (levelBN (ls ! (i - 1)))
           + round_places DECIMAL_PLACES
               ((r - finValue (cumulativeQuote ls (i - 1))) / finValue (priceBN (ls ! i)))
         \<le> finValue (levelBN (ls ! (i' - 1)))
           + round_places DECIMAL_PLACES
               ((r' - finValue (cumulativeQuote ls (i' - 1))) / finValue (priceBN (ls ! i')))"
proof -
  have ii': "i \<le> i'"
  proof (rule ccontr)
    assume "\<not> i \<le> i'"
    then have "\<not> r \<le> finValue (cumulativeQuote ls i')"
      using first i'(1) by simp
    then show False using le i'(3) by simp
  qed
  have pi: "0 < finValue (priceBN (ls ! i))" and pi': "0 < finValue (priceBN (ls ! i'))"
    using prices_nth(2) [OF pr] i(2) i'(2) by simp_all
  show ?thesis
  proof (cases "i = i'")
    case True
    have "(r - finValue (cumulativeQuote ls (i - 1))) / finValue (priceBN (ls ! i))
            \<le> (r' - finValue (cumulativeQuote ls (i - 1))) / finValue (priceBN (ls ! i))"
      using le pi by (simp add: divide_right_mono)
    then show ?thesis
      using True by (simp add: round_places_mono)
  next
    case False
    then have lt: "i \<le> i' - 1" "1 \<le> i' - 1" "i' - 1 < i'" "i' - 1 < length ls"
      using ii' i(1) i'(2) by simp_all
    obtain k where k: "i = Suc k" using i(1) by (cases i) auto
    have k1: "k < length ls" using i(2) k by simp
    let ?D = "finValue (levelBN (ls ! i)) - finValue (levelBN (ls ! (i - 1)))"
    have "r - finValue (cumulativeQuote ls (i - 1)) \<le> ?D * finValue (priceBN (ls ! i))"
      using cumulativeQuote_value_Suc [OF fin, of k] i(2,3) by (simp add: k)
    then have "(r - finValue (cumulativeQuote ls (i - 1))) / finValue (priceBN (ls ! i)) \<le> ?D"
      using pi by (simp add: pos_divide_le_eq)
    then have "round_places DECIMAL_PLACES
                 ((r - finValue (cumulativeQuote ls (i - 1))) / finValue (priceBN (ls ! i)))
               \<le> round_places DECIMAL_PLACES ?D"
      by (rule round_places_mono)
    also have "\<dots> = ?D"
      using round_places_diff [OF sizesRounded_nth [OF rd i(2)] sizesRounded_nth [OF rd, of "i - 1"]]
        i(2) by simp
    finally have "finValue (levelBN (ls ! (i - 1)))
           + round_places DECIMAL_PLACES
               ((r - finValue (cumulativeQuote ls (i - 1))) / finValue (priceBN (ls ! i)))
         \<le> finValue (levelBN (ls ! i))"
      by simp
    also have "\<dots> \<le> finValue (levelBN (ls ! (i' - 1)))"
      using sizesAscending_nth [OF asc lt(1) lt(4)] .
    also have "\<dots> \<le> finValue (levelBN (ls ! (i' - 1)))
           + round_places DECIMAL_PLACES
               ((r' - finValue (cumulativeQuote ls (i' - 1))) / finValue (priceBN (ls ! i')))"
    proof -
      have "\<not> r' \<le> finValue (cumulativeQuote ls (i' - 1))"
        using i'(4) lt(2,3) by blast
      then have "0 \<le> (r' - finValue (cumulativeQuote ls (i' - 1))) / finValue (priceBN (ls ! i'))"
        using pi' by simp
      then show ?thesis
        using round_places_nonneg by simp
    qed
    finally show ?thesis .
  qed
qed
text \<open>The zero level keeps a well-formed curve well-formed, and makes it start at or below zero.\<close>

lemma addZeroLevel_curve:
  assumes zero: "bn ''0'' = Fin 0" and fin: "curveFinite (toPriceLevelsBN bn levels)"
  shows "curveFinite (toPriceLevelsBN bn (addZeroLevel bn levels))"
    and "sizesAscending (toPriceLevelsBN bn levels) \<Longrightarrow>
           sizesAscending (toPriceLevelsBN bn (addZeroLevel bn levels))"
    and "pricesNonNegative (toPriceLevelsBN bn levels) \<Longrightarrow>
           pricesNonNegative (toPriceLevelsBN bn (addZeroLevel bn levels))"
    and "pricesPositive (toPriceLevelsBN bn levels) \<Longrightarrow>
           pricesPositive (toPriceLevelsBN bn (addZeroLevel bn levels))"
    and "sizesRounded (toPriceLevelsBN bn levels) \<Longrightarrow>
           sizesRounded (toPriceLevelsBN bn (addZeroLevel bn levels))"
    and "levels \<noteq> [] \<Longrightarrow>
           finValue (levelBN (toPriceLevelsBN bn (addZeroLevel bn levels) ! 0)) \<le> 0"
proof -
  show "curveFinite (toPriceLevelsBN bn (addZeroLevel bn levels))"
    using fin zero
    by (cases levels) (simp_all add: addZeroLevel_def toPriceLevelsBN_def curveFinite_def)
  show "pricesNonNegative (toPriceLevelsBN bn (addZeroLevel bn levels))"
    if "pricesNonNegative (toPriceLevelsBN bn levels)"
    using that
    by (cases levels) (simp_all add: addZeroLevel_def toPriceLevelsBN_def pricesNonNegative_def)
  show "pricesPositive (toPriceLevelsBN bn (addZeroLevel bn levels))"
    if "pricesPositive (toPriceLevelsBN bn levels)"
    using that
    by (cases levels) (simp_all add: addZeroLevel_def toPriceLevelsBN_def pricesPositive_def)
  show "sizesRounded (toPriceLevelsBN bn (addZeroLevel bn levels))"
    if "sizesRounded (toPriceLevelsBN bn levels)"
    using that zero
    by (cases levels) (simp_all add: addZeroLevel_def toPriceLevelsBN_def sizesRounded_def)
  show "sizesAscending (toPriceLevelsBN bn (addZeroLevel bn levels))"
    if asc: "sizesAscending (toPriceLevelsBN bn levels)"
  proof (cases levels)
    case Nil
    then show ?thesis by (simp add: addZeroLevel_def toPriceLevelsBN_def sizesAscending_def)
  next
    case (Cons f rest)
    obtain v where v: "bn (level f) = Fin v"
      using fin Cons by (auto simp: toPriceLevelsBN_def curveFinite_def isFinite_conv)
    show ?thesis
    proof (cases "0 < v")
      case True
      have "\<forall>x \<in> set rest. v \<le> finValue (bn (level x))"
        using asc Cons v by (simp add: toPriceLevelsBN_def sizesAscending_def comp_def)
      then have "\<forall>x \<in> set rest. 0 \<le> finValue (bn (level x))"
        using True by fastforce
      then show ?thesis
        using asc Cons v True zero
        by (simp add: addZeroLevel_def toPriceLevelsBN_def sizesAscending_def comp_def)
    next
      case False
      then show ?thesis
        using asc Cons v by (simp add: addZeroLevel_def)
    qed
  qed
  show "finValue (levelBN (toPriceLevelsBN bn (addZeroLevel bn levels) ! 0)) \<le> 0"
    if ne: "levels \<noteq> []"
  proof -
    obtain f rest where Cons: "levels = f # rest"
      using ne by (cases levels) auto
    obtain v where v: "bn (level f) = Fin v"
      using fin Cons by (auto simp: toPriceLevelsBN_def curveFinite_def isFinite_conv)
    show ?thesis
      using Cons v zero by (simp add: addZeroLevel_def toPriceLevelsBN_def)
  qed
qed

lemma addZeroLevel_Nil [simp]: "addZeroLevel bn levels = [] \<longleftrightarrow> levels = []"
  by (cases levels) (simp_all add: addZeroLevel_def)

text \<open>
  On a well-formed curve that starts at or below zero, a positive amount below a fillable
  amount is fillable, both outputs are finite, and the smaller amount has the smaller
  output.
\<close>

lemma levelsQuoteFor_mono:
  assumes fin: "curveFinite (toPriceLevelsBN bn lv)"
      and asc: "sizesAscending (toPriceLevelsBN bn lv)"
      and pr: "if side = SELL then pricesNonNegative (toPriceLevelsBN bn lv)
               else pricesPositive (toPriceLevelsBN bn lv) \<and> sizesRounded (toPriceLevelsBN bn lv)"
      and origin: "lv \<noteq> [] \<Longrightarrow> finValue (levelBN (toPriceLevelsBN bn lv ! 0)) \<le> 0"
      and pos: "0 < a" and le: "a \<le> a'"
      and some: "levelsQuoteFor bn lv side (Fin a') = Some y'"
  shows "\<exists>v v'. levelsQuoteFor bn lv side (Fin a) = Some (Fin v) \<and> y' = Fin v' \<and> v \<le> v'"
proof -
  let ?ls = "toPriceLevelsBN bn lv"
  have ne: "lv \<noteq> []"
    using some by (auto simp: levelsQuoteFor_def computeLevelsQuote_def Let_def split: if_splits)
  then have n: "0 < length ?ls" by (simp add: toPriceLevelsBN_def)
  have o: "finValue (levelBN (?ls ! 0)) \<le> 0" using origin ne by simp
  obtain l0 p0 where l0: "levelBN (?ls ! 0) = Fin l0" and p0: "priceBN (?ls ! 0) = Fin p0"
    using curveFinite_nth [OF fin n] by blast
  have l0le: "l0 \<le> 0" using o l0 by simp
  show ?thesis
  proof (cases side)
    case SELL
    have pr': "pricesNonNegative ?ls" using pr SELL by simp
    have q: "levelsQuoteFor bn lv side (Fin x) = specQuoteForBase ?ls (Fin x)" if "0 < x" for x
      using that ne l0 l0le SELL by (simp add: levelsQuoteFor_def computeLevelsQuote_base)
    have pos': "0 < a'" using pos le by simp
    obtain i' where i': "firstLevelAtLeast ?ls (Fin a') 1 = Some i'"
                and y': "y' = interpolateInTier ?ls (Fin a') i'"
      using some q [OF pos'] by (auto simp: specQuoteForBase_def)
    have fi': "1 \<le> i'" "i' < length ?ls" "a' \<le> finValue (levelBN (?ls ! i'))"
         "\<forall>j. 1 \<le> j \<and> j < i' \<longrightarrow> \<not> a' \<le> finValue (levelBN (?ls ! j))"
      using i' unfolding firstLevelAtLeast_Some [OF fin] by simp_all
    have "firstLevelAtLeast ?ls (Fin a) 1 \<noteq> None"
      unfolding firstLevelAtLeast_None [OF fin] using fi'(1,2,3) le by force
    then obtain i where i: "firstLevelAtLeast ?ls (Fin a) 1 = Some i" by blast
    have fi: "1 \<le> i" "i < length ?ls" "a \<le> finValue (levelBN (?ls ! i))"
         "\<forall>j. 1 \<le> j \<and> j < i \<longrightarrow> \<not> a \<le> finValue (levelBN (?ls ! j))"
      using i unfolding firstLevelAtLeast_Some [OF fin] by simp_all
    have i0: "0 < i" "0 < i'" using fi(1) fi'(1) by simp_all
    have "levelsQuoteFor bn lv side (Fin a) = Some (interpolateInTier ?ls (Fin a) i)"
      using q [OF pos] i by (simp add: specQuoteForBase_def)
    then show ?thesis
      unfolding y' interpolateInTier_finite [OF fin i0(1) fi(2)]
        interpolateInTier_finite [OF fin i0(2) fi'(2)]
      using sell_mono [OF fin asc pr' i0(1) fi(2,3) i0(2) fi'(2,3,4) fi(4) le]
      by blast
  next
    case BUY
    have pr': "pricesPositive ?ls" and rd: "sizesRounded ?ls" using pr BUY by simp_all
    have "0 < p0" using prices_nth(2) [OF pr' n] p0 by simp
    then have q0: "l0 * p0 \<le> 0" using l0le by (simp add: mult_le_0_iff)
    have q: "levelsQuoteFor bn lv side (Fin x) = specBaseForQuote ?ls (Fin x)" if "0 < x" for x
      using that ne l0 p0 q0 BUY by (simp add: levelsQuoteFor_def computeLevelsQuote_quote)
    have pos': "0 < a'" using pos le by simp
    obtain i' where i': "firstQuoteAtLeast ?ls (Fin a') 1 = Some i'"
                and y': "y' = impliedBaseInTier ?ls (Fin a') i'"
      using some q [OF pos'] by (auto simp: specBaseForQuote_def)
    have fi': "1 \<le> i'" "i' < length ?ls" "a' \<le> finValue (cumulativeQuote ?ls i')"
         "\<forall>j. 1 \<le> j \<and> j < i' \<longrightarrow> \<not> a' \<le> finValue (cumulativeQuote ?ls j)"
      using i' unfolding firstQuoteAtLeast_Some [OF fin] by simp_all
    have "firstQuoteAtLeast ?ls (Fin a) 1 \<noteq> None"
      unfolding firstQuoteAtLeast_None [OF fin] using fi'(1,2,3) le by force
    then obtain i where i: "firstQuoteAtLeast ?ls (Fin a) 1 = Some i" by blast
    have fi: "1 \<le> i" "i < length ?ls" "a \<le> finValue (cumulativeQuote ?ls i)"
         "\<forall>j. 1 \<le> j \<and> j < i \<longrightarrow> \<not> a \<le> finValue (cumulativeQuote ?ls j)"
      using i unfolding firstQuoteAtLeast_Some [OF fin] by simp_all
    have i0: "0 < i" "0 < i'" using fi(1) fi'(1) by simp_all
    have pn: "finValue (priceBN (?ls ! i)) \<noteq> 0" "finValue (priceBN (?ls ! i')) \<noteq> 0"
      using prices_nth(2) [OF pr' fi(2)] prices_nth(2) [OF pr' fi'(2)] by simp_all
    have "levelsQuoteFor bn lv side (Fin a) = Some (impliedBaseInTier ?ls (Fin a) i)"
      using q [OF pos] i by (simp add: specBaseForQuote_def)
    then show ?thesis
      unfolding y' impliedBaseInTier_finite [OF fin i0(1) fi(2) pn(1)]
        impliedBaseInTier_finite [OF fin i0(2) fi'(2) pn(2)]
      using buy_mono [OF fin asc pr' rd i0(1) fi(2,3) i0(2) fi'(2,3,4) fi(4) le]
      by blast
  qed
qed
lemma computeOutputs_length [simp]:
  "length (computeOutputs bn lv side amounts) = length amounts"
  by (induction amounts) (simp_all split: option.splits)

text \<open>
  Entry \<open>j\<close> of \<^verbatim>\<open>outputs\<close> after the loop, for amounts that are not zero: the output of
  amount \<open>j\<close> when every amount up to \<open>j\<close> is fillable, and \<^verbatim>\<open>BN_0\<close> otherwise, whatever
  the later amounts are.
\<close>

lemma computeOutputs_nth:
  assumes "\<forall>a \<in> set amounts. \<not> isZero a" "j < length amounts"
  shows "computeOutputs bn lv side amounts ! j =
           (if \<forall>i \<le> j. levelsQuoteFor bn lv side (amounts ! i) \<noteq> None
            then the (levelsQuoteFor bn lv side (amounts ! j)) else BN_0)"
  using assms
proof (induction amounts arbitrary: j)
  case Nil
  then show ?case by simp
next
  case (Cons a rest)
  have nz: "\<not> isZero a" and nzr: "\<forall>a \<in> set rest. \<not> isZero a"
    using Cons.prems(1) by simp_all
  show ?case
  proof (cases "levelsQuoteFor bn lv side a")
    case None
    have neg: "\<not> (\<forall>i \<le> j. levelsQuoteFor bn lv side ((a # rest) ! i) \<noteq> None)"
      using None by (auto intro: exI [of _ 0])
    have out: "computeOutputs bn lv side (a # rest) = replicate (Suc (length rest)) BN_0"
      using None nz by simp
    have "computeOutputs bn lv side (a # rest) ! j = BN_0"
      unfolding out using Cons.prems(2) by (simp del: replicate.simps)
    then show ?thesis
      unfolding if_not_P [OF neg] .
  next
    case (Some y)
    show ?thesis
    proof (cases j)
      case 0
      then show ?thesis using Some nz by simp
    next
      case (Suc k)
      then have k: "k < length rest" using Cons.prems(2) by simp
      have all: "(\<forall>i \<le> Suc k. levelsQuoteFor bn lv side ((a # rest) ! i) \<noteq> None) \<longleftrightarrow>
                 (\<forall>i \<le> k. levelsQuoteFor bn lv side (rest ! i) \<noteq> None)"
      proof
        assume A: "\<forall>i \<le> Suc k. levelsQuoteFor bn lv side ((a # rest) ! i) \<noteq> None"
        show "\<forall>i \<le> k. levelsQuoteFor bn lv side (rest ! i) \<noteq> None"
        proof (intro allI impI)
          fix i assume "i \<le> k"
          then show "levelsQuoteFor bn lv side (rest ! i) \<noteq> None"
            using A [rule_format, of "Suc i"] by simp
        qed
      next
        assume B: "\<forall>i \<le> k. levelsQuoteFor bn lv side (rest ! i) \<noteq> None"
        show "\<forall>i \<le> Suc k. levelsQuoteFor bn lv side ((a # rest) ! i) \<noteq> None"
        proof (intro allI impI)
          fix i assume i: "i \<le> Suc k"
          show "levelsQuoteFor bn lv side ((a # rest) ! i) \<noteq> None"
          proof (cases i)
            case 0
            then show ?thesis using Some by simp
          next
            case (Suc i')
            then show ?thesis using B i by simp
          qed
        qed
      qed
      have "computeOutputs bn lv side (a # rest) ! Suc k = computeOutputs bn lv side rest ! k"
        using Some nz by simp
      also note Cons.IH [OF nzr k]
      finally show ?thesis
        unfolding Suc all nth_Cons_Suc .
    qed
  qed
qed

lemma mapThrowing_Inr:
  "(\<forall>x \<in> set xs. f x = Inr (g x)) \<Longrightarrow> mapThrowing f xs = Inr (map g xs)"
  by (induction xs) simp_all

lemma amounts_nth:
  assumes "amountsPositiveAscending amounts" "j < length amounts"
  shows "amounts ! j = Fin (finValue (amounts ! j))" "0 < finValue (amounts ! j)"
    and "i \<le> j \<Longrightarrow> finValue (amounts ! i) \<le> finValue (amounts ! j)"
proof -
  show "amounts ! j = Fin (finValue (amounts ! j))" "0 < finValue (amounts ! j)"
    using assms by (simp_all add: amountsPositiveAscending_def list_all_length isFinite_conv [symmetric])
  show "finValue (amounts ! i) \<le> finValue (amounts ! j)" if "i \<le> j"
    using assms that by (simp add: amountsPositiveAscending_def sorted_iff_nth_mono)
qed
text \<open>
  Claim C3, as the code has it. Take a curve whose sizes and prices are finite numbers,
  whose sizes do not decrease and whose prices are not negative (for a request by quote
  amount: whose prices are positive and whose sizes have at most \<^verbatim>\<open>DECIMAL_PLACES\<close>
  places), a constructor that reads \<^verbatim>\<open>'0'\<close> as zero, and a non-decreasing sequence of
  finite positive amounts. Then the call returns one output per amount without throwing;
  every amount before a fillable amount is fillable and its output is not greater; and
  from the first unfillable amount on, every amount is unfillable and its output is 0.
\<close>

theorem computePricesFromLevels_monotone:
  assumes zero: "bn ''0'' = Fin 0"
      and fin: "curveFinite (toPriceLevelsBN bn levels)"
      and asc: "sizesAscending (toPriceLevelsBN bn levels)"
      and pr: "if side = SELL then pricesNonNegative (toPriceLevelsBN bn levels)
               else pricesPositive (toPriceLevelsBN bn levels)
                    \<and> sizesRounded (toPriceLevelsBN bn levels)"
      and am: "amountsPositiveAscending amounts"
  shows "\<exists>outputs.
           fst (computePricesFromLevels bn amounts levels srcToken destToken side) = Inr outputs
           \<and> length outputs = length amounts
           \<and> (\<forall>i j. i \<le> j \<and> j < length amounts \<and> fillable bn levels side amounts j \<longrightarrow>
                  fillable bn levels side amounts i \<and> outputs ! i \<le> outputs ! j)
           \<and> (\<forall>i j. i \<le> j \<and> j < length amounts \<and> \<not> fillable bn levels side amounts i \<longrightarrow>
                  \<not> fillable bn levels side amounts j \<and> outputs ! j = 0)"
proof -
  let ?lv = "addZeroLevel bn levels"
  let ?ls = "toPriceLevelsBN bn ?lv"
  let ?f = "levelsQuoteFor bn ?lv side"
  let ?outs = "computeOutputs bn ?lv side amounts"
  define d where "d = (if side = SELL then decimals destToken else decimals srcToken)"
  let ?g = "\<lambda>x. round_half_up (finValue x * 10 ^ d)"
  define outputs where "outputs = map ?g ?outs"
  note curve = addZeroLevel_curve [OF zero fin]
  have fin': "curveFinite ?ls" and asc': "sizesAscending ?ls"
    using curve(1) curve(2) [OF asc] by simp_all
  have pr': "if side = SELL then pricesNonNegative ?ls else pricesPositive ?ls \<and> sizesRounded ?ls"
    using pr curve(3,4,5) by (simp split: if_splits)
  have origin: "?lv \<noteq> [] \<Longrightarrow> finValue (levelBN (?ls ! 0)) \<le> 0"
    using curve(6) by simp
  have mono: "\<exists>v v'. ?f (amounts ! i) = Some (Fin v) \<and> y' = Fin v' \<and> v \<le> v'"
    if ij: "i \<le> j" "j < length amounts" and y': "?f (amounts ! j) = Some y'" for i j y'
  proof -
    have i: "i < length amounts" using ij by simp
    have yj: "?f (Fin (finValue (amounts ! j))) = Some y'"
      using y' amounts_nth(1) [OF am ij(2)] by simp
    show ?thesis
      using levelsQuoteFor_mono [OF fin' asc' pr' origin amounts_nth(2) [OF am i]
              amounts_nth(3) [OF am ij(2) ij(1)] yj]
            amounts_nth(1) [OF am i]
      by simp
  qed
  have nz: "\<forall>a \<in> set amounts. \<not> isZero a"
  proof
    fix a assume "a \<in> set amounts"
    then obtain k where k: "k < length amounts" "a = amounts ! k"
      by (auto simp: in_set_conv_nth)
    show "\<not> isZero a"
      using amounts_nth(1,2) [OF am k(1)] k(2) by (auto simp: isZero_def)
  qed
  have filled: "?outs ! j = the (?f (amounts ! j))"
    if j: "j < length amounts" and fj: "?f (amounts ! j) \<noteq> None" for j
  proof -
    obtain y' where y': "?f (amounts ! j) = Some y'" using fj by blast
    have all: "\<forall>i \<le> j. ?f (amounts ! i) \<noteq> None"
      using mono [OF _ j y'] by fastforce
    show ?thesis
      unfolding computeOutputs_nth [OF nz j, of bn ?lv side] if_P [OF all] ..
  qed
  have marked: "?outs ! j = BN_0"
    if ij: "i \<le> j" "j < length amounts" and fi: "?f (amounts ! i) = None" for i j
  proof -
    have neg: "\<not> (\<forall>i \<le> j. ?f (amounts ! i) \<noteq> None)"
      using ij(1) fi by blast
    show ?thesis
      unfolding computeOutputs_nth [OF nz ij(2), of bn ?lv side] if_not_P [OF neg] ..
  qed
  have finite: "isFinite (?outs ! j)" if j: "j < length amounts" for j
  proof (cases "?f (amounts ! j)")
    case None
    then show ?thesis using marked [OF le_refl j] by (simp add: BN_0_def)
  next
    case (Some y')
    then show ?thesis
      using mono [OF le_refl j Some] filled [OF j] by auto
  qed
  have conv: "\<forall>x \<in> set ?outs. toFixed0_BigInt (multipliedBy x (getBigNumberPow d)) = Inr (?g x)"
  proof
    fix x assume "x \<in> set ?outs"
    then obtain k where "k < length amounts" "x = ?outs ! k"
      by (auto simp: in_set_conv_nth)
    then obtain v where "x = Fin v"
      using finite isFinite_conv by blast
    then show "toFixed0_BigInt (multipliedBy x (getBigNumberPow d)) = Inr (?g x)"
      by (simp add: toFixed0_BigInt_def getBigNumberPow_def)
  qed
  have res: "fst (computePricesFromLevels bn amounts levels srcToken destToken side)
               = Inr outputs"
    using mapThrowing_Inr [OF conv]
    by (simp add: computePricesFromLevels_def Let_def d_def outputs_def)
  have len: "length outputs = length amounts"
    by (simp add: outputs_def)
  have g_mono: "?g (Fin v) \<le> ?g (Fin v')" if "v \<le> v'" for v v'
    using that by (simp add: round_half_up_mono mult_right_mono)
  have A: "fillable bn levels side amounts i \<and> outputs ! i \<le> outputs ! j"
    if ij: "i \<le> j" "j < length amounts" and fj: "fillable bn levels side amounts j" for i j
  proof -
    have i: "i < length amounts" using ij by simp
    obtain y' where y': "?f (amounts ! j) = Some y'"
      using fj by (auto simp: fillable_def)
    obtain v v' where v: "?f (amounts ! i) = Some (Fin v)" "y' = Fin v'" "v \<le> v'"
      using mono [OF ij y'] by blast
    have "?outs ! i = Fin v" "?outs ! j = Fin v'"
      using filled [OF i] filled [OF ij(2)] v y' by simp_all
    then have "outputs ! i \<le> outputs ! j"
      using g_mono [OF v(3)] i ij(2) by (simp add: outputs_def)
    then show ?thesis
      using v(1) by (simp add: fillable_def)
  qed
  have B: "\<not> fillable bn levels side amounts j \<and> outputs ! j = 0"
    if ij: "i \<le> j" "j < length amounts" and fi: "\<not> fillable bn levels side amounts i" for i j
  proof -
    have "?f (amounts ! i) = None" using fi by (simp add: fillable_def)
    then have "?outs ! j = BN_0" using marked [OF ij] by simp
    then have "outputs ! j = 0"
      using ij(2) by (simp add: BN_0_def outputs_def)
    then show ?thesis
      using A [OF ij] fi by blast
  qed
  show ?thesis
    using res len A B by blast
qed
lemma levelsFrom10BN:
  "toPriceLevelsBN decimalBN levelsFrom10 =
     [\<lparr>levelBN = Fin 10, priceBN = Fin 2\<rparr>, \<lparr>levelBN = Fin 20, priceBN = Fin 3\<rparr>]"
  by (simp add: toPriceLevelsBN_def levelsFrom10_def decimalBN_examples)

lemma round_places_numeral [simp]: "round_places dp (numeral k) = numeral k"
  unfolding round_places_fixed_int
  by (rule exI [of _ "numeral k * 10 ^ dp"]) simp

lemma levelsFrom10_wellformed:
  "curveFinite (toPriceLevelsBN decimalBN levelsFrom10)"
  "sizesAscending (toPriceLevelsBN decimalBN levelsFrom10)"
  "pricesNonNegative (toPriceLevelsBN decimalBN levelsFrom10)"
  "pricesPositive (toPriceLevelsBN decimalBN levelsFrom10)"
  "sizesRounded (toPriceLevelsBN decimalBN levelsFrom10)"
  by (simp_all add: levelsFrom10BN curveFinite_def sizesAscending_def pricesNonNegative_def
        pricesPositive_def sizesRounded_def)

theorem computePricesFromLevels_monotone_witness:
  "(\<exists>outputs.
      fst (computePricesFromLevels decimalBN [Fin 5, Fin 15, Fin 25] levelsFrom10
             plainToken plainToken SELL) = Inr outputs
      \<and> length outputs = length [Fin 5, Fin 15, Fin 25]
      \<and> (\<forall>i j. i \<le> j \<and> j < length [Fin 5, Fin 15, Fin 25]
                \<and> fillable decimalBN levelsFrom10 SELL [Fin 5, Fin 15, Fin 25] j \<longrightarrow>
             fillable decimalBN levelsFrom10 SELL [Fin 5, Fin 15, Fin 25] i
             \<and> outputs ! i \<le> outputs ! j)
      \<and> (\<forall>i j. i \<le> j \<and> j < length [Fin 5, Fin 15, Fin 25]
                \<and> \<not> fillable decimalBN levelsFrom10 SELL [Fin 5, Fin 15, Fin 25] i \<longrightarrow>
             \<not> fillable decimalBN levelsFrom10 SELL [Fin 5, Fin 15, Fin 25] j
             \<and> outputs ! j = 0))
   \<and> (\<exists>outputs.
      fst (computePricesFromLevels decimalBN [Fin 10, Fin 35, Fin 60] levelsFrom10
             plainToken plainToken BUY) = Inr outputs
      \<and> length outputs = length [Fin 10, Fin 35, Fin 60]
      \<and> (\<forall>i j. i \<le> j \<and> j < length [Fin 10, Fin 35, Fin 60]
                \<and> fillable decimalBN levelsFrom10 BUY [Fin 10, Fin 35, Fin 60] j \<longrightarrow>
             fillable decimalBN levelsFrom10 BUY [Fin 10, Fin 35, Fin 60] i
             \<and> outputs ! i \<le> outputs ! j)
      \<and> (\<forall>i j. i \<le> j \<and> j < length [Fin 10, Fin 35, Fin 60]
                \<and> \<not> fillable decimalBN levelsFrom10 BUY [Fin 10, Fin 35, Fin 60] i \<longrightarrow>
             \<not> fillable decimalBN levelsFrom10 BUY [Fin 10, Fin 35, Fin 60] j
             \<and> outputs ! j = 0))"
proof
  have z: "decimalBN ''0'' = Fin 0"
    by (simp add: decimalBN_examples)
  have sell: "if SELL = SELL then pricesNonNegative (toPriceLevelsBN decimalBN levelsFrom10)
              else pricesPositive (toPriceLevelsBN decimalBN levelsFrom10)
                   \<and> sizesRounded (toPriceLevelsBN decimalBN levelsFrom10)"
    by (simp add: levelsFrom10_wellformed)
  have buy: "if BUY = SELL then pricesNonNegative (toPriceLevelsBN decimalBN levelsFrom10)
             else pricesPositive (toPriceLevelsBN decimalBN levelsFrom10)
                  \<and> sizesRounded (toPriceLevelsBN decimalBN levelsFrom10)"
    by (simp add: levelsFrom10_wellformed)
  have a1: "amountsPositiveAscending [Fin 5, Fin 15, Fin 25]"
    and a2: "amountsPositiveAscending [Fin 10, Fin 35, Fin 60]"
    by (simp_all add: amountsPositiveAscending_def)
  show "\<exists>outputs.
      fst (computePricesFromLevels decimalBN [Fin 5, Fin 15, Fin 25] levelsFrom10
             plainToken plainToken SELL) = Inr outputs
      \<and> length outputs = length [Fin 5, Fin 15, Fin 25]
      \<and> (\<forall>i j. i \<le> j \<and> j < length [Fin 5, Fin 15, Fin 25]
                \<and> fillable decimalBN levelsFrom10 SELL [Fin 5, Fin 15, Fin 25] j \<longrightarrow>
             fillable decimalBN levelsFrom10 SELL [Fin 5, Fin 15, Fin 25] i
             \<and> outputs ! i \<le> outputs ! j)
      \<and> (\<forall>i j. i \<le> j \<and> j < length [Fin 5, Fin 15, Fin 25]
                \<and> \<not> fillable decimalBN levelsFrom10 SELL [Fin 5, Fin 15, Fin 25] i \<longrightarrow>
             \<not> fillable decimalBN levelsFrom10 SELL [Fin 5, Fin 15, Fin 25] j
             \<and> outputs ! j = 0)"
    by (rule computePricesFromLevels_monotone [where bn = decimalBN and levels = levelsFrom10
          and side = SELL, OF z levelsFrom10_wellformed(1,2) sell a1])
  show "\<exists>outputs.
      fst (computePricesFromLevels decimalBN [Fin 10, Fin 35, Fin 60] levelsFrom10
             plainToken plainToken BUY) = Inr outputs
      \<and> length outputs = length [Fin 10, Fin 35, Fin 60]
      \<and> (\<forall>i j. i \<le> j \<and> j < length [Fin 10, Fin 35, Fin 60]
                \<and> fillable decimalBN levelsFrom10 BUY [Fin 10, Fin 35, Fin 60] j \<longrightarrow>
             fillable decimalBN levelsFrom10 BUY [Fin 10, Fin 35, Fin 60] i
             \<and> outputs ! i \<le> outputs ! j)
      \<and> (\<forall>i j. i \<le> j \<and> j < length [Fin 10, Fin 35, Fin 60]
                \<and> \<not> fillable decimalBN levelsFrom10 BUY [Fin 10, Fin 35, Fin 60] i \<longrightarrow>
             \<not> fillable decimalBN levelsFrom10 BUY [Fin 10, Fin 35, Fin 60] j
             \<and> outputs ! j = 0)"
    by (rule computePricesFromLevels_monotone [where bn = decimalBN and levels = levelsFrom10
          and side = BUY, OF z levelsFrom10_wellformed(1,2) buy a2])
qed

lemma exampleLevels_quotes:
  "computeLevelsQuote decimalBN exampleLevels (Some (Fin 5)) None = Some (Fin 10)"
  "computeLevelsQuote decimalBN exampleLevels (Some (Fin 15)) None = Some (Fin 35)"
  "computeLevelsQuote decimalBN exampleLevels (Some (Fin 25)) None = None"
  by (simp_all add: computeLevelsQuote_def Let_def exampleLevelsBN levelsLoop_unfold)

lemma negativePriceLevelsBN:
  "toPriceLevelsBN decimalBN negativePriceLevels =
     [\<lparr>levelBN = Fin 0, priceBN = Fin (- 1)\<rparr>, \<lparr>levelBN = Fin 10, priceBN = Fin (- 1)\<rparr>]"
  by (simp add: toPriceLevelsBN_def negativePriceLevels_def decimalBN_def unsignedDecimal_def
        split_at_dot_def digit_of_def)

lemma negativePriceLevels_quotes:
  "computeLevelsQuote decimalBN negativePriceLevels (Some (Fin 1)) None = Some (Fin (- 1))"
  "computeLevelsQuote decimalBN negativePriceLevels (Some (Fin 2)) None = Some (Fin (- 2))"
  by (simp_all add: computeLevelsQuote_def Let_def negativePriceLevelsBN levelsLoop_unfold)

lemma round_half_up_neg_numeral [simp]:
  "round_half_up (- numeral k) = - numeral k" "round_half_up (- 1) = - 1"
  using round_half_up_of_int [of "- numeral k"] round_half_up_of_int [of "- 1"] by simp_all

text \<open>
  The claim as it is written fails. On the three-tier curve the ascending positive amounts
  15 and 25 give the outputs 35 and 0: the unfillable amount is marked with 0, below the
  output before it. And nothing keeps a price from being negative: on a curve of price
  \<open>-1\<close> the amounts 1 and 2 are both fillable and give \<open>-1\<close> and \<open>-2\<close>.
\<close>

theorem computePricesFromLevels_outputs_decrease:
  "amountsPositiveAscending [Fin 15, Fin 25]
   \<and> fst (computePricesFromLevels decimalBN [Fin 15, Fin 25] exampleLevels
            plainToken plainToken SELL) = Inr [35, 0]
   \<and> \<not> sorted [35, 0 :: int]
   \<and> amountsPositiveAscending [Fin 1, Fin 2]
   \<and> fst (computePricesFromLevels decimalBN [Fin 1, Fin 2] negativePriceLevels
            plainToken plainToken SELL) = Inr [- 1, - 2]
   \<and> \<not> sorted [- 1, - 2 :: int]"
proof -
  have z1: "addZeroLevel decimalBN exampleLevels = exampleLevels"
    by (simp add: addZeroLevel_def exampleLevels_def decimalBN_examples)
  have z2: "addZeroLevel decimalBN negativePriceLevels = negativePriceLevels"
    by (simp add: addZeroLevel_def negativePriceLevels_def decimalBN_examples)
  have "fst (computePricesFromLevels decimalBN [Fin 15, Fin 25] exampleLevels
            plainToken plainToken SELL) = Inr [35, 0]"
    by (simp add: computePricesFromLevels_def Let_def z1 levelsQuoteFor_def exampleLevels_quotes
          isZero_def BN_0_def plainToken_def getBigNumberPow_def toFixed0_BigInt_def)
  moreover have "fst (computePricesFromLevels decimalBN [Fin 1, Fin 2] negativePriceLevels
            plainToken plainToken SELL) = Inr [- 1, - 2]"
    by (simp add: computePricesFromLevels_def Let_def z2 levelsQuoteFor_def
          negativePriceLevels_quotes isZero_def BN_0_def plainToken_def getBigNumberPow_def
          toFixed0_BigInt_def)
  ultimately show ?thesis
    by (simp add: amountsPositiveAscending_def)
qed

section \<open>Validation of crossed books\<close>

lemma decimalBN_digits:
  "decimalBN ''1'' = Fin 1" "decimalBN ''8'' = Fin 8" "decimalBN ''9'' = Fin 9"
  by (simp_all add: decimalBN_def unsignedDecimal_def split_at_dot_def digit_of_def)

text \<open>
  Claim C2. The rule compares the maximum bid and the minimum ask with the JavaScript
  operator \<^verbatim>\<open><\<close> on two \<^verbatim>\<open>BigNumber\<close> objects, that is, as the strings their
  \<^verbatim>\<open>valueOf()\<close> returns. The crossed book of the specification, bid 10 against ask 9,
  has maximum bid 10 and minimum ask 9 and passes validation, because \<^verbatim>\<open>"10" < "9"\<close>
  holds for strings; the book bid 8 against ask 9 passes; and the book bid 8 against
  ask 10, which is not crossed, is rejected.
\<close>

theorem crossed_book_passes_validation:
  "maxBid decimalBN [[''10'', ''1'']] = Fin 10
   \<and> minAsk decimalBN [[''9'', ''1'']] = Fin 9
   \<and> pricesResponse decimalBN (bookOf ''10'' ''9'') = Valid (bookOf ''10'' ''9'')
   \<and> pricesResponse decimalBN (bookOf ''8'' ''9'') = Valid (bookOf ''8'' ''9'')
   \<and> pricesResponse decimalBN (bookOf ''8'' ''10'')
       = Invalid ''the maximum bid is higher than minimum ask''"
proof (intro conjI)
  show "maxBid decimalBN [[''10'', ''1'']] = Fin 10"
    by (simp add: maxBid_def firstNumber_def decimalBN_examples)
  show "minAsk decimalBN [[''9'', ''1'']] = Fin 9"
    by (simp add: minAsk_def firstNumber_def decimalBN_digits)
  show "pricesResponse decimalBN (bookOf ''10'' ''9'') = Valid (bookOf ''10'' ''9'')"
    by code_simp
  show "pricesResponse decimalBN (bookOf ''8'' ''9'') = Valid (bookOf ''8'' ''9'')"
    by code_simp
  show "pricesResponse decimalBN (bookOf ''8'' ''10'')
          = Invalid ''the maximum bid is higher than minimum ask''"
    by code_simp
qed

section \<open>Pool identifiers and maker ids\<close>

lemma lowerChar_idem [simp]: "lowerChar (lowerChar c) = lowerChar c"
  by (auto simp: lowerChar_def Let_def)

lemma toLowerCase_idem [simp]: "toLowerCase (toLowerCase s) = toLowerCase s"
  by (simp add: toLowerCase_def)

lemma toLowerCase_append [simp]: "toLowerCase (a @ b) = toLowerCase a @ toLowerCase b"
  by (simp add: toLowerCase_def)

lemma toLowerCase_underscore [simp]: "toLowerCase (CHR ''_'' # s) = CHR ''_'' # toLowerCase s"
  by (simp add: toLowerCase_def lowerChar_def)

lemma getPoolIdentifier_prefix:
  "getPoolIdentifier k s d m = (getIdentifierPrefix k s d @ ''_'') @ toLowerCase m"
  by (simp add: getPoolIdentifier_def getIdentifierPrefix_def)

lemma splitFrom_no_separator:
  assumes "sep \<noteq> []" "\<forall>i < length s. \<not> startsWith (drop i s) sep"
  shows "splitFrom sep piece s = [rev piece @ s]"
  using assms(2)
proof (induction s arbitrary: piece)
  case Nil
  then show ?case by (simp add: splitFrom.simps)
next
  case (Cons c cs)
  have here: "\<not> startsWith (c # cs) sep"
    using Cons.prems [rule_format, of 0] by simp
  have rest: "\<forall>i < length cs. \<not> startsWith (drop i cs) sep"
  proof (intro allI impI)
    fix i assume "i < length cs"
    then show "\<not> startsWith (drop i cs) sep"
      using Cons.prems [rule_format, of "Suc i"] by simp
  qed
  show ?case
    using here Cons.IH [OF rest, of "c # piece"]
    by (simp add: splitFrom.simps [of sep piece "c # cs"])
qed

lemma pop_split_prefixed:
  assumes "sep \<noteq> []" "\<forall>i < length m. \<not> startsWith (drop i m) sep"
  shows "pop (split (sep @ m) sep) = Some m"
proof -
  have "splitFrom sep [] (sep @ m) = [] # splitFrom sep [] m"
    using assms(1) by (simp add: splitFrom.simps [of sep "[]" "sep @ m"] startsWith_def)
  then show ?thesis
    using assms splitFrom_no_separator [OF assms, of "[]"]
    by (simp add: split_def pop_def)
qed

text \<open>
  The round trip as far as it holds: a maker id that is in lower case and in which the
  separator, the identifier prefix followed by an underscore, does not occur is read
  back from its pool identifier as it is.
\<close>

lemma pool_identifier_round_trip:
  assumes "toLowerCase m = m"
      and "\<forall>i < length m. \<not> startsWith (drop i m)
             (getIdentifierPrefix k (address (normalizeToken srcToken))
                (address (normalizeToken destToken)) @ ''_'')"
  shows "marketMakersToUse k srcToken destToken
           [getPoolIdentifier k (address (normalizeToken srcToken))
              (address (normalizeToken destToken)) m] = [Some m]"
  using pop_split_prefixed [OF _ assms(2)] assms(1)
  by (simp add: marketMakersToUse_def Let_def getPoolIdentifier_prefix)

text \<open>
  Claim C8. The pool identifier is lower-cased as a whole, maker id included, and the id
  read back from it is compared with the keys of the quote set as they are. For a quote
  set whose only maker is \<open>MM1\<close>, \<^verbatim>\<open>getPoolIdentifiers\<close> produces one identifier, the id
  read back from it is \<open>mm1\<close>, which is no key of the quote set, and
  \<^verbatim>\<open>getPricesVolume\<close> keeps no maker. For maker ids in lower case that do not contain
  the separator the round trip holds, by \<open>pool_identifier_round_trip\<close>.
\<close>

theorem pool_identifier_round_trip_fails:
  "getPoolIdentifiers ''Hashflow'' upperMakerLevels tokenA tokenB = [''hashflow_0xa_0xb_mm1'']
   \<and> marketMakersToUse ''Hashflow'' tokenA tokenB
         (getPoolIdentifiers ''Hashflow'' upperMakerLevels tokenA tokenB) = [Some ''mm1'']
   \<and> ''mm1'' \<notin> set (map fst upperMakerLevels)
   \<and> keptMakers ''Hashflow'' upperMakerLevels tokenA tokenB None = []"
proof (intro conjI)
  show ids: "getPoolIdentifiers ''Hashflow'' upperMakerLevels tokenA tokenB
               = [''hashflow_0xa_0xb_mm1'']"
    by code_simp
  show "marketMakersToUse ''Hashflow'' tokenA tokenB
          (getPoolIdentifiers ''Hashflow'' upperMakerLevels tokenA tokenB) = [Some ''mm1'']"
    unfolding ids by code_simp
  show "''mm1'' \<notin> set (map fst upperMakerLevels)"
    by (simp add: upperMakerLevels_def)
  show "keptMakers ''Hashflow'' upperMakerLevels tokenA tokenB None = []"
    by code_simp
qed

section \<open>Properties of the transaction preprocessing\<close>

text \<open>
  Claim C5, as the code has it. The bound that the returned amount is compared with is an
  integer: the product with the slippage factor is rounded to the nearest integer, a tie
  away from zero, before the comparison. For a finite slippage factor, a fixed-input
  trade raises \<^verbatim>\<open>SlippageCheckError\<close> exactly when the returned quote-token amount is
  less than the rounded \<open>destAmount * slippageFactor\<close>, and a fixed-output trade exactly
  when the returned quote-token amount is less than \<open>destAmount\<close> or the returned
  base-token amount exceeds the rounded \<open>slippageFactor * srcAmount\<close>. With
  \<open>destAmount = 100\<close> and the factor \<open>0.99\<close>, the amount 98 raises and 99 passes.
\<close>

theorem slippageCheck_rounded_bound:
  "(isSlippageCheckError (slippageCheck h SELL q b s d (Fin f))
      \<longleftrightarrow> q < round_half_up (of_int d * f))
   \<and> (isSlippageCheckError (slippageCheck h BUY q b s d (Fin f))
      \<longleftrightarrow> q < d \<or> round_half_up (f * of_int s) < b)
   \<and> (slippageCheck h SELL q b s d (Fin f) = Inr () \<longleftrightarrow> \<not> q < round_half_up (of_int d * f))
   \<and> (slippageCheck h BUY q b s d (Fin f) = Inr ()
      \<longleftrightarrow> \<not> (q < d \<or> round_half_up (f * of_int s) < b))
   \<and> isSlippageCheckError (slippageCheck h SELL 98 b s 100 (Fin (99 / 100)))
   \<and> slippageCheck h SELL 99 b s 100 (Fin (99 / 100)) = Inr ()"
proof -
  have "round_half_up (of_int 100 * (99 / 100)) = 99"
    using round_half_up_of_int [of 99] by simp
  then show ?thesis
    by (simp add: slippageCheck_def toFixed0_BigInt_def)
qed

text \<open>
  The claim as it is written fails where the product is not an integer: with
  \<open>destAmount = 100\<close> and the factor \<open>0.994\<close> the returned amount 99 is less than
  \<open>destAmount * slippageFactor = 99.4\<close>, and the check passes.
\<close>

theorem slippageCheck_passes_below_product:
  "(of_int 99 :: rat) < of_int 100 * (497 / 500)
   \<and> slippageCheck exampleHashflow SELL 99 50 50 100 (Fin (497 / 500)) = Inr ()
   \<and> \<not> isSlippageCheckError (slippageCheck exampleHashflow SELL 99 50 50 100 (Fin (497 / 500)))"
proof -
  have "\<lfloor>(497 / 5 :: rat) + 1 / 2\<rfloor> = 99"
    by (simp add: floor_eq_iff)
  then have "round_half_up (of_int 100 * (497 / 500)) = 99"
    by (simp add: round_half_up_def)
  then show ?thesis
    by (simp add: slippageCheck_def toFixed0_BigInt_def)
qed

lemma digitChar_simps:
  "digitChar 0 = CHR ''0''" "digitChar 1 = CHR ''1''" "digitChar 2 = CHR ''2''"
  "digitChar 3 = CHR ''3''" "digitChar 4 = CHR ''4''" "digitChar 5 = CHR ''5''"
  "digitChar 6 = CHR ''6''" "digitChar 7 = CHR ''7''" "digitChar 8 = CHR ''8''"
  "digitChar 9 = CHR ''9''" "digitChar (Suc 0) = CHR ''1''"
  by code_simp+

lemma map_of_alistSet: "map_of (alistSet k v ps) k' = (if k' = k then Some v else map_of ps k')"
  by (induction ps) auto

lemma map_of_alistDelete: "k' \<noteq> k \<Longrightarrow> map_of (alistDelete k ps) k' = map_of ps k'"
  by (induction ps) (auto simp: alistDelete_def)

lemma getBlackListKey_not_levels: "getBlackListKey a \<noteq> ''levels''"
  by (simp add: getBlackListKey_def toLowerCase_def lowerChar_def)

lemma isBlacklisted_setBlacklist: "isBlacklisted (setBlacklist h a c) a"
  by (simp add: isBlacklisted_def setBlacklist_def map_of_alistSet)

lemma isBlacklisted_restrictMM: "isBlacklisted (restrictMM m now c) a = isBlacklisted c a"
  by (simp add: isBlacklisted_def restrictMM_def map_of_alistDelete getBlackListKey_not_levels)

text \<open>
  Claim C6. When the address is not blacklisted, the maker is given, and a step of the
  \<^verbatim>\<open>try\<close> block fails with an error \<open>e\<close> (the request for the firm quote, a check of
  the response, a conversion, or the slippage check), the call throws \<open>e\<close> itself. When
  \<open>e\<close> is an \<^verbatim>\<open>Error\<close> whose message ends with the restricted-user signal, the cache
  after the call is the cache with the trade-origin address blacklisted, and the
  restricted makers are as before; otherwise it is the cache with the maker restricted at
  the current time, and every address is blacklisted exactly if it was before.
\<close>

theorem preProcessTransaction_failure:
  assumes "\<not> isBlacklisted c (txOrigin options)"
      and "data optimalSwapExchange = Some d"
      and "tryBlock h rt outcome optimalSwapExchange (normalizeToken srcToken)
             (normalizeToken destToken) side options (dataMM d) = Inl e"
      and "r = preProcessTransaction h rt now outcome c optimalSwapExchange srcToken destToken
                 side options"
  shows "fst r = Inl e
       \<and> (isErrorObject e \<and> endsWith (message e) restrictedUserSignal \<longrightarrow>
            snd r = setBlacklist h (txOrigin options) c
            \<and> isBlacklisted (snd r) (txOrigin options)
            \<and> restricted (snd r) = restricted c)
       \<and> (\<not> (isErrorObject e \<and> endsWith (message e) restrictedUserSignal) \<longrightarrow>
            snd r = restrictMM (dataMM d) now c
            \<and> map_of (restricted (snd r)) (dataMM d) = Some (intToString now)
            \<and> (\<forall>a. isBlacklisted (snd r) a = isBlacklisted c a))"
proof -
  have r: "r = (Inl e,
                if isErrorObject e \<and> endsWith (message e) restrictedUserSignal
                then setBlacklist h (txOrigin options) c
                else restrictMM (dataMM d) now c)"
    using assms by (simp add: preProcessTransaction_def Let_def)
  have "restricted (setBlacklist h (txOrigin options) c) = restricted c"
    by (simp add: setBlacklist_def)
  moreover have "map_of (restricted (restrictMM (dataMM d) now c)) (dataMM d) = Some (intToString now)"
    by (simp add: restrictMM_def map_of_alistSet)
  ultimately show ?thesis
    unfolding r by (simp add: isBlacklisted_setBlacklist isBlacklisted_restrictMM)
qed
theorem preProcessTransaction_failure_witness:
  "fst (exampleCall (Rejects restrictedUserError)) = Inl restrictedUserError
   \<and> isBlacklisted (snd (exampleCall (Rejects restrictedUserError))) ''0xC0FFEE''
   \<and> restricted (snd (exampleCall (Rejects restrictedUserError))) = []
   \<and> fst (exampleCall (Resolves (exampleResponse ''98''))) = Inl exampleSlippageError
   \<and> map_of (restricted (snd (exampleCall (Resolves (exampleResponse ''98''))))) ''mm1''
       = Some ''1700000000000''
   \<and> \<not> isBlacklisted (snd (exampleCall (Resolves (exampleResponse ''98'')))) ''0xC0FFEE''"
proof -
  let ?d = "\<lparr>dataMM = ''mm1'', dataQuoteData = None, dataSignature = None, dataGasEstimate = None\<rparr>"
  have nb: "\<not> isBlacklisted emptyCache (txOrigin exampleOptions)"
    by code_simp
  have d: "data exampleSwap = Some ?d"
    by (simp add: exampleSwap_def)
  have o: "txOrigin exampleOptions = ''0xC0FFEE''" "dataMM ?d = ''mm1''"
    by (simp_all add: exampleOptions_def)
  have f1: "tryBlock exampleHashflow digitsRuntime (Rejects restrictedUserError) exampleSwap
              (normalizeToken tokenA) (normalizeToken tokenB) SELL exampleOptions (dataMM ?d)
            = Inl restrictedUserError"
    by (simp add: tryBlock_def)
  have f2: "tryBlock exampleHashflow digitsRuntime (Resolves (exampleResponse ''98'')) exampleSwap
              (normalizeToken tokenA) (normalizeToken tokenB) SELL exampleOptions (dataMM ?d)
            = Inl exampleSlippageError"
    by code_simp
  have s1: "isErrorObject restrictedUserError
            \<and> endsWith (message restrictedUserError) restrictedUserSignal"
    by code_simp
  have s2: "\<not> (isErrorObject exampleSlippageError
               \<and> endsWith (message exampleSlippageError) restrictedUserSignal)"
    by code_simp
  have t: "intToString 1700000000000 = ''1700000000000''"
    by (simp add: intToString_def natToString.simps digitChar_simps)
  have e: "restricted emptyCache = []"
    by (simp add: emptyCache_def)
  note A = preProcessTransaction_failure [OF nb d f1 exampleCall_def]
  note B = preProcessTransaction_failure [OF nb d f2 exampleCall_def]
  note A2 = mp [OF conjunct1 [OF conjunct2 [OF A]] s1]
  note B2 = mp [OF conjunct2 [OF conjunct2 [OF B]] s2]
  show ?thesis
  proof (intro conjI)
    show "fst (exampleCall (Rejects restrictedUserError)) = Inl restrictedUserError"
      by (rule conjunct1 [OF A])
    show "isBlacklisted (snd (exampleCall (Rejects restrictedUserError))) ''0xC0FFEE''"
      using conjunct1 [OF conjunct2 [OF A2]] unfolding o .
    show "restricted (snd (exampleCall (Rejects restrictedUserError))) = []"
      using conjunct2 [OF conjunct2 [OF A2]] unfolding e .
    show "fst (exampleCall (Resolves (exampleResponse ''98''))) = Inl exampleSlippageError"
      by (rule conjunct1 [OF B])
    show "map_of (restricted (snd (exampleCall (Resolves (exampleResponse ''98''))))) ''mm1''
            = Some ''1700000000000''"
      using conjunct1 [OF conjunct2 [OF B2]] unfolding o t .
    have "isBlacklisted (snd (exampleCall (Resolves (exampleResponse ''98'')))) ''0xC0FFEE''
            = isBlacklisted emptyCache ''0xC0FFEE''"
      using spec [OF conjunct2 [OF conjunct2 [OF B2]], of "''0xC0FFEE''"] .
    then show "\<not> isBlacklisted (snd (exampleCall (Resolves (exampleResponse ''98'')))) ''0xC0FFEE''"
      using nb unfolding o by (rule ssubst)
  qed
qed

end
